theory Spec2Isabelle
  imports Complex_Main "HOL-Library.Char_ord"
begin

chapter \<open>The model\<close>

section \<open>VisitStore: the per-country records of \<^verbatim>\<open>App.tsx\<close>\<close>

text \<open>
  \<^verbatim>\<open>types.ts\<close> declares \<^verbatim>\<open>CountryVisit = { visited: boolean; date?: string; photos: string[] }\<close>
  and \<^verbatim>\<open>UserData = { [countryCode: string]: CountryVisit }\<close>. At run time the handlers
  build records with object spread, so a field can be missing (\<^verbatim>\<open>undefined\<close>) even where
  the interface declares it; a field is therefore an option, \<open>None\<close> being \<^verbatim>\<open>undefined\<close>.
\<close>

record CountryVisit =
  visited :: "bool option"
  date :: "string option"
  photos :: "string list option"

type_synonym UserData = "string \<rightharpoonup> CountryVisit"

text \<open>\<^verbatim>\<open>{ ...prev[code] }\<close>: spreading \<^verbatim>\<open>undefined\<close> copies no field.\<close>

definition spread :: "CountryVisit option \<Rightarrow> CountryVisit" where
  "spread r = (case r of None \<Rightarrow> \<lparr>visited = None, date = None, photos = None\<rparr> | Some v \<Rightarrow> v)"

text \<open>The optional chains \<^verbatim>\<open>prev[code]?.visited\<close>, \<^verbatim>\<open>prev[code]?.date\<close>, \<^verbatim>\<open>prev[code]?.photos\<close>.\<close>

definition chain_visited :: "CountryVisit option \<Rightarrow> bool option" where
  "chain_visited r = (case r of None \<Rightarrow> None | Some v \<Rightarrow> visited v)"

definition chain_date :: "CountryVisit option \<Rightarrow> string option" where
  "chain_date r = (case r of None \<Rightarrow> None | Some v \<Rightarrow> date v)"

definition chain_photos :: "CountryVisit option \<Rightarrow> string list option" where
  "chain_photos r = (case r of None \<Rightarrow> None | Some v \<Rightarrow> photos v)"

text \<open>Truthiness of a boolean-or-undefined, and \<^verbatim>\<open>x || []\<close> on an array-or-undefined
  (an array, even an empty one, is truthy).\<close>

definition truthy :: "bool option \<Rightarrow> bool" where
  "truthy b = (case b of None \<Rightarrow> False | Some v \<Rightarrow> v)"

definition or_empty :: "'a list option \<Rightarrow> 'a list" where
  "or_empty xs = (case xs of None \<Rightarrow> [] | Some ys \<Rightarrow> ys)"

text \<open>How the component reads a snapshot: \<^verbatim>\<open>userData[c]?.visited\<close> as a condition (line 167),
  \<^verbatim>\<open>userData[c]?.date\<close> (line 484) and \<^verbatim>\<open>userData[c]?.photos || []\<close> (lines 75, 509).\<close>

definition visited_of :: "UserData \<Rightarrow> string \<Rightarrow> bool" where
  "visited_of userData c = truthy (chain_visited (userData c))"

definition date_of :: "UserData \<Rightarrow> string \<Rightarrow> string option" where
  "date_of userData c = chain_date (userData c)"

definition photos_of :: "UserData \<Rightarrow> string \<Rightarrow> string list" where
  "photos_of userData c = or_empty (chain_photos (userData c))"

text \<open>Each handler calls \<^verbatim>\<open>setUserData(prev => ...)\<close>; the model is the updater, from the
  previous snapshot to the next one. \<^verbatim>\<open>{ ...prev, [code]: r }\<close> is the map update.\<close>

definition toggleVisit :: "string \<Rightarrow> UserData \<Rightarrow> UserData" where
  "toggleVisit code prev =
     prev(code \<mapsto> (spread (prev code))
       \<lparr>visited := Some (\<not> truthy (chain_visited (prev code))),
        photos := Some (or_empty (chain_photos (prev code)))\<rparr>)"

definition updateDate :: "string \<Rightarrow> string \<Rightarrow> UserData \<Rightarrow> UserData" where
  "updateDate code d prev = prev(code \<mapsto> (spread (prev code))\<lparr>date := Some d\<rparr>)"

text \<open>\<^verbatim>\<open>prev[code] || { visited: false, date: '', photos: [] }\<close>: an object is truthy, so the
  default is taken exactly when there is no record.\<close>

definition current_or_default :: "CountryVisit option \<Rightarrow> CountryVisit" where
  "current_or_default r =
     (case r of None \<Rightarrow> \<lparr>visited = Some False, date = Some [], photos = Some []\<rparr> | Some v \<Rightarrow> v)"

definition addPhoto :: "string \<Rightarrow> string \<Rightarrow> UserData \<Rightarrow> UserData" where
  "addPhoto code photoDataUrl prev =
     (let current = current_or_default (prev code)
      in prev(code \<mapsto> current\<lparr>photos := Some (or_empty (photos current) @ [photoDataUrl])\<rparr>))"

text \<open>\<^verbatim>\<open>if (photoDataUrls.length === 0) return;\<close> leaves the state as it is: no update is queued.\<close>

definition addPhotos :: "string \<Rightarrow> string list \<Rightarrow> UserData \<Rightarrow> UserData" where
  "addPhotos code photoDataUrls prev =
     (if length photoDataUrls = 0 then prev
      else let current = current_or_default (prev code)
           in prev(code \<mapsto> current\<lparr>photos := Some (or_empty (photos current) @ photoDataUrls)\<rparr>))"

text \<open>
  \<^verbatim>\<open>Array.prototype.splice(start, deleteCount)\<close> on an integer \<open>start\<close>, as ECMAScript
  defines it: a negative start counts from the end and is clamped at 0, a start beyond the
  end is clamped at the length, and the delete count is clamped to what is left. The value
  is the array after the call. No argument makes it throw.
\<close>

definition splice_array :: "'a list \<Rightarrow> int \<Rightarrow> int \<Rightarrow> 'a list" where
  "splice_array xs start deleteCount =
     (let len = int (length xs);
          actualStart = (if start < 0 then max (len + start) 0 else min start len);
          actualDeleteCount = min (max deleteCount 0) (len - actualStart)
      in take (nat actualStart) xs @ drop (nat (actualStart + actualDeleteCount)) xs)"

definition removePhoto :: "string \<Rightarrow> int \<Rightarrow> UserData \<Rightarrow> UserData" where
  "removePhoto code index prev =
     (let newPhotos = splice_array (or_empty (chain_photos (prev code))) index 1
      in prev(code \<mapsto> (spread (prev code))\<lparr>photos := Some newPhotos\<rparr>))"

text \<open>A record has the full shape of the interface when \<^verbatim>\<open>visited\<close> and \<^verbatim>\<open>photos\<close> are present.\<close>

definition full_shape :: "CountryVisit \<Rightarrow> bool" where
  "full_shape r = (visited r \<noteq> None \<and> photos r \<noteq> None)"

section \<open>ImageCompressor: \<^verbatim>\<open>compressImageToDataUrl\<close> of \<^verbatim>\<open>App.tsx\<close>\<close>

text \<open>
  The promise is rejected with \<^verbatim>\<open>read_failed\<close> when the \<^verbatim>\<open>FileReader\<close> fails, with
  \<^verbatim>\<open>image_decode_failed\<close> when the image does not load, and with \<^verbatim>\<open>canvas_failed\<close> when
  no 2d context is available. What the reader and the decoder make of the file is the
  input of the model: unreadable, undecodable, or decoded with the \<^verbatim>\<open>width\<close> and
  \<^verbatim>\<open>height\<close> the image element reports (unsigned integers).
\<close>

datatype compress_error = read_failed | image_decode_failed | canvas_failed

datatype file_content = Unreadable | Undecodable | Decoded nat nat

subsection \<open>JavaScript arithmetic\<close>

text \<open>
  A JavaScript number is a binary64 floating-point number, and the result of a division
  or a multiplication is the exact result rounded to the nearest binary64 number, a tie
  going to the even significand. The model computes on rationals and rounds as the
  machine does: \<open>exponent x\<close> is the integer \<open>e\<close> with \<open>2 ^ e \<le> x < 2 ^ (e + 1)\<close> for a
  positive \<open>x\<close> (from the number of binary digits of an integer, \<open>bit_length\<close>), the spacing
  of the binary64 numbers around \<open>x\<close> is \<open>2 ^ (e - 52)\<close>, with \<open>e\<close> at least \<open>-1022\<close> (below that
  the numbers are subnormal), and \<open>binary64 x\<close> is the multiple of the spacing nearest to
  \<open>x\<close>. Overflow to \<^verbatim>\<open>Infinity\<close> is not modelled: the numbers rounded below do not exceed
  the operands \<^verbatim>\<open>maxSize\<close>, \<^verbatim>\<open>width\<close> and \<^verbatim>\<open>height\<close>.
\<close>

fun bit_length :: "nat \<Rightarrow> nat" where
  "bit_length n = (if n = 0 then 0 else Suc (bit_length (n div 2)))"

declare bit_length.simps [simp del]

definition exponent :: "rat \<Rightarrow> int" where
  "exponent x =
     (if 1 \<le> x then int (bit_length (nat \<lfloor>x\<rfloor>)) - 1
      else - int (bit_length (nat (\<lceil>1 / x\<rceil> - 1))))"

definition round_even :: "rat \<Rightarrow> int" where
  "round_even y =
     (let f = \<lfloor>y\<rfloor>; r = y - of_int f
      in if r < 1 / 2 then f else if 1 / 2 < r then f + 1 else if even f then f else f + 1)"

definition binary64 :: "rat \<Rightarrow> rat" where
  "binary64 x =
     (if x = 0 then 0
      else
        (let a = \<bar>x\<bar>;
             e = max (exponent a) (- 1022);
             u = 2 powi (e - 52)
         in sgn x * (of_int (round_even (a / u)) * u)))"

text \<open>\<^verbatim>\<open>Math.round\<close>: the nearest integer, a tie going up. \<^verbatim>\<open>Math.min\<close> and \<^verbatim>\<open>Math.max\<close> are
  exact.\<close>

definition js_round :: "rat \<Rightarrow> int" where
  "js_round x = \<lfloor>x + 1 / 2\<rfloor>"

subsection \<open>The target size\<close>

text \<open>
  \<open>target_size\<close> is the computation of \<^verbatim>\<open>img.onload\<close> (lines 229 to 232). The value of the
  promise is modelled by the size of the canvas that is encoded, \<open>(targetW, targetH)\<close>; the
  JPEG bytes and the \<^verbatim>\<open>quality\<close> argument, which only goes to \<^verbatim>\<open>toDataURL\<close>, are left out.
  For an image of size 0 by 0 the division is by zero: the quotient is \<^verbatim>\<open>Infinity\<close> for a
  positive \<^verbatim>\<open>maxSize\<close>, so the scale is 1 and the canvas 1 by 1; otherwise it is \<^verbatim>\<open>NaN\<close> or
  \<^verbatim>\<open>-Infinity\<close>, both sizes become \<^verbatim>\<open>NaN\<close>, and the canvas takes that as 0.
\<close>

definition target_size :: "nat \<Rightarrow> nat \<Rightarrow> rat \<Rightarrow> int \<times> int" where
  "target_size width height maxSize =
     (if max width height = 0 then (if 0 < maxSize then (1, 1) else (0, 0))
      else
        (let scale = min 1 (binary64 (maxSize / of_nat (max width height)));
             targetW = max 1 (js_round (binary64 (of_nat width * scale)));
             targetH = max 1 (js_round (binary64 (of_nat height * scale)))
         in (targetW, targetH)))"

definition compressImageToDataUrl ::
  "bool \<Rightarrow> file_content \<Rightarrow> rat \<Rightarrow> compress_error + int \<times> int" where
  "compressImageToDataUrl has_context file maxSize =
     (case file of
        Unreadable \<Rightarrow> Inl read_failed
      | Undecodable \<Rightarrow> Inl image_decode_failed
      | Decoded width height \<Rightarrow>
          (let canvas = target_size width height maxSize
           in if \<not> has_context then Inl canvas_failed else Inr canvas))"

section \<open>PersistenceGateway: the initial value of \<^verbatim>\<open>userData\<close>\<close>

text \<open>
  \<^verbatim>\<open>useState<UserData>(() => { const saved = localStorage.getItem('wanderlust_data');
  return saved ? JSON.parse(saved) : {}; })\<close> (\<^verbatim>\<open>App.tsx\<close>, lines 63 to 66).
  \<^verbatim>\<open>getItem\<close> gives \<^verbatim>\<open>null\<close> or the stored text; \<^verbatim>\<open>JSON.parse\<close> is the platform's and throws
  a \<^verbatim>\<open>SyntaxError\<close> on a text that is not JSON. There is no \<^verbatim>\<open>try\<close> around the call.

  \<^verbatim>\<open>JSON.parse\<close> is modelled by a parser for the JSON grammar (ECMA-404): a scanner that
  goes through the text once, then a pushdown automaton over the tokens. The result is
  the syntax tree of the text: a number and a string are kept as they are written (escape
  sequences are checked, not decoded), and an object keeps its members in their order.
\<close>

datatype json =
    JNull
  | JBool bool
  | JNumber string
  | JString string
  | JArray "json list"
  | JObject "(string \<times> json) list"

datatype token =
    LBrace | RBrace | LBracket | RBracket | Colon | Comma
  | TString string | TNumber string | TWord string

datatype scan_mode =
    Idle
  | InString string
  | InEscape string
  | InUnicode nat string
  | InNumber string
  | InWord string

definition is_ws :: "char \<Rightarrow> bool" where
  "is_ws c = (c = CHR '' '' \<or> c = CHR 0x09 \<or> c = CHR 0x0A \<or> c = CHR 0x0D)"

definition is_digit :: "char \<Rightarrow> bool" where
  "is_digit c = (CHR ''0'' \<le> c \<and> c \<le> CHR ''9'')"

definition is_hex :: "char \<Rightarrow> bool" where
  "is_hex c = (is_digit c \<or> (CHR ''a'' \<le> c \<and> c \<le> CHR ''f'') \<or> (CHR ''A'' \<le> c \<and> c \<le> CHR ''F''))"

definition is_number_char :: "char \<Rightarrow> bool" where
  "is_number_char c = (is_digit c \<or> c \<in> set ''+-.eE'')"

definition is_word_char :: "char \<Rightarrow> bool" where
  "is_word_char c = (CHR ''a'' \<le> c \<and> c \<le> CHR ''z'')"

definition punctuation :: "char \<Rightarrow> token option" where
  "punctuation c =
     (if c = CHR ''{'' then Some LBrace else if c = CHR ''}'' then Some RBrace
      else if c = CHR ''['' then Some LBracket else if c = CHR '']'' then Some RBracket
      else if c = CHR '':'' then Some Colon else if c = CHR '','' then Some Comma
      else None)"

text \<open>
  The scanner. \<open>CHR 0x22\<close> is the double quote and \<open>CHR 0x5C\<close> the backslash. A number and
  a literal name are collected as far as their characters go and checked afterwards
  (\<open>valid_number\<close>, \<open>scalar\<close>); \<open>None\<close> is a text with no division into tokens.
\<close>

function (sequential) scan :: "scan_mode \<Rightarrow> string \<Rightarrow> token list option" where
  "scan Idle [] = Some []"
| "scan (InNumber acc) [] = Some [TNumber acc]"
| "scan (InWord acc) [] = Some [TWord acc]"
| "scan (InString acc) [] = None"
| "scan (InEscape acc) [] = None"
| "scan (InUnicode n acc) [] = None"
| "scan Idle (c # cs) =
     (if is_ws c then scan Idle cs
      else if c = CHR 0x22 then scan (InString []) cs
      else if c = CHR ''-'' \<or> is_digit c then scan (InNumber [c]) cs
      else if is_word_char c then scan (InWord [c]) cs
      else case punctuation c of
             None \<Rightarrow> None
           | Some t \<Rightarrow> map_option ((#) t) (scan Idle cs))"
| "scan (InString acc) (c # cs) =
     (if c = CHR 0x22 then map_option ((#) (TString acc)) (scan Idle cs)
      else if c = CHR 0x5C then scan (InEscape (acc @ [c])) cs
      else if c < CHR 0x20 then None
      else scan (InString (acc @ [c])) cs)"
| "scan (InEscape acc) (c # cs) =
     (if c = CHR ''u'' then scan (InUnicode 4 (acc @ [c])) cs
      else if c = CHR 0x22 \<or> c = CHR 0x5C \<or> c \<in> set ''/bfnrt'' then scan (InString (acc @ [c])) cs
      else None)"
| "scan (InUnicode n acc) (c # cs) =
     (if \<not> is_hex c then None
      else if n \<le> 1 then scan (InString (acc @ [c])) cs
      else scan (InUnicode (n - 1) (acc @ [c])) cs)"
| "scan (InNumber acc) (c # cs) =
     (if is_number_char c then scan (InNumber (acc @ [c])) cs
      else map_option ((#) (TNumber acc)) (scan Idle (c # cs)))"
| "scan (InWord acc) (c # cs) =
     (if is_word_char c then scan (InWord (acc @ [c])) cs
      else map_option ((#) (TWord acc)) (scan Idle (c # cs)))"
  by pat_completeness auto
termination
  by (relation "measure (\<lambda>(mode, cs). 2 * length cs + (case mode of Idle \<Rightarrow> 0 | _ \<Rightarrow> 1))") auto

text \<open>The grammar of a number: an optional minus, \<open>0\<close> or digits that do not start with
  \<open>0\<close>, an optional fraction, an optional exponent.\<close>

definition valid_exponent :: "string \<Rightarrow> bool" where
  "valid_exponent r =
     (case r of
        [] \<Rightarrow> True
      | e # r1 \<Rightarrow>
          (e = CHR ''e'' \<or> e = CHR ''E'') \<and>
          (let ds = (case r1 of [] \<Rightarrow> [] | s # t \<Rightarrow> if s = CHR ''+'' \<or> s = CHR ''-'' then t else r1)
           in ds \<noteq> [] \<and> list_all is_digit ds))"

definition valid_fraction :: "string \<Rightarrow> bool" where
  "valid_fraction r =
     (case r of
        [] \<Rightarrow> True
      | p # r1 \<Rightarrow>
          if p = CHR ''.'' then takeWhile is_digit r1 \<noteq> [] \<and> valid_exponent (dropWhile is_digit r1)
          else valid_exponent r)"

definition valid_number :: "string \<Rightarrow> bool" where
  "valid_number s =
     (case (case s of [] \<Rightarrow> [] | m # t \<Rightarrow> if m = CHR ''-'' then t else s) of
        [] \<Rightarrow> False
      | d # r \<Rightarrow>
          if d = CHR ''0'' then valid_fraction r
          else is_digit d \<and> valid_fraction (dropWhile is_digit r))"

text \<open>A token that is a value by itself.\<close>

definition scalar :: "token \<Rightarrow> json option" where
  "scalar t =
     (case t of
        TString s \<Rightarrow> Some (JString s)
      | TNumber s \<Rightarrow> if valid_number s then Some (JNumber s) else None
      | TWord s \<Rightarrow>
          if s = ''true'' then Some (JBool True)
          else if s = ''false'' then Some (JBool False)
          else if s = ''null'' then Some JNull
          else None
      | _ \<Rightarrow> None)"

text \<open>The automaton: the stack holds the arrays and objects that are still open (an
  object with the key that waits for its value), the state says what may come next.\<close>

datatype frame = FArray "json list" | FObject "(string \<times> json) list" "string option"

datatype expect = Value | ValueOrClose | KeyOrClose | Key | ColonNext | CommaOrClose | Finished json

definition got_value :: "json \<Rightarrow> frame list \<Rightarrow> (expect \<times> frame list) option" where
  "got_value v stack =
     (case stack of
        [] \<Rightarrow> Some (Finished v, [])
      | FArray xs # rest \<Rightarrow> Some (CommaOrClose, FArray (xs @ [v]) # rest)
      | FObject kvs None # rest \<Rightarrow> None
      | FObject kvs (Some k) # rest \<Rightarrow> Some (CommaOrClose, FObject (kvs @ [(k, v)]) None # rest))"

definition start_value :: "token \<Rightarrow> frame list \<Rightarrow> (expect \<times> frame list) option" where
  "start_value t stack =
     (case t of
        LBracket \<Rightarrow> Some (ValueOrClose, FArray [] # stack)
      | LBrace \<Rightarrow> Some (KeyOrClose, FObject [] None # stack)
      | _ \<Rightarrow> (case scalar t of None \<Rightarrow> None | Some v \<Rightarrow> got_value v stack))"

definition start_key :: "token \<Rightarrow> frame list \<Rightarrow> (expect \<times> frame list) option" where
  "start_key t stack =
     (case (t, stack) of
        (TString k, FObject kvs None # rest) \<Rightarrow> Some (ColonNext, FObject kvs (Some k) # rest)
      | _ \<Rightarrow> None)"

definition close_container :: "token \<Rightarrow> frame list \<Rightarrow> (expect \<times> frame list) option" where
  "close_container t stack =
     (case (t, stack) of
        (RBracket, FArray xs # rest) \<Rightarrow> got_value (JArray xs) rest
      | (RBrace, FObject kvs None # rest) \<Rightarrow> got_value (JObject kvs) rest
      | _ \<Rightarrow> None)"

definition parse_step :: "token \<Rightarrow> expect \<times> frame list \<Rightarrow> (expect \<times> frame list) option" where
  "parse_step t st =
     (case st of
        (Value, stack) \<Rightarrow> start_value t stack
      | (ValueOrClose, stack) \<Rightarrow>
          if t = RBracket then close_container t stack else start_value t stack
      | (KeyOrClose, stack) \<Rightarrow>
          if t = RBrace then close_container t stack else start_key t stack
      | (Key, stack) \<Rightarrow> start_key t stack
      | (ColonNext, stack) \<Rightarrow> if t = Colon then Some (Value, stack) else None
      | (CommaOrClose, stack) \<Rightarrow>
          if t = Comma then
            (case stack of
               [] \<Rightarrow> None
             | FArray xs # rest \<Rightarrow> Some (Value, stack)
             | FObject kvs k # rest \<Rightarrow> Some (Key, stack))
          else close_container t stack
      | (Finished v, stack) \<Rightarrow> None)"

fun parse_tokens :: "token list \<Rightarrow> expect \<times> frame list \<Rightarrow> json option" where
  "parse_tokens [] st = (case st of (Finished v, _) \<Rightarrow> Some v | _ \<Rightarrow> None)"
| "parse_tokens (t # ts) st =
     (case parse_step t st of None \<Rightarrow> None | Some st' \<Rightarrow> parse_tokens ts st')"

datatype js_exception = SyntaxError

definition JSON_parse :: "string \<Rightarrow> js_exception + json" where
  "JSON_parse text =
     (case scan Idle text of
        None \<Rightarrow> Inl SyntaxError
      | Some ts \<Rightarrow>
          (case parse_tokens ts (Value, []) of
             None \<Rightarrow> Inl SyntaxError
           | Some v \<Rightarrow> Inr v))"

text \<open>The initializer: \<open>saved\<close> is \<^verbatim>\<open>null\<close> (\<open>None\<close>) or the stored text; the empty text is
  falsy as \<^verbatim>\<open>null\<close> is. \<open>JObject []\<close> is the empty snapshot \<^verbatim>\<open>{}\<close>, \<open>Inl\<close> the exception
  that leaves the initializer.\<close>

definition load_userData :: "string option \<Rightarrow> js_exception + json" where
  "load_userData saved =
     (case saved of
        None \<Rightarrow> Inr (JObject [])
      | Some s \<Rightarrow> if s = [] then Inr (JObject []) else JSON_parse s)"

section \<open>FlagFetcher: \<^verbatim>\<open>scripts/download-flags.mjs\<close>\<close>

definition RESTCOUNTRIES_ALPHA_URL :: string where
  "RESTCOUNTRIES_ALPHA_URL = ''https://restcountries.com/v3.1/alpha''"

definition RETRIES :: nat where "RETRIES = 3"

definition CODES_PER_CHUNK :: nat where "CODES_PER_CHUNK = 25"

subsection \<open>Strings\<close>

text \<open>
  A string is the list of its characters. Template literals print a number in decimal
  (\<open>show_nat\<close>). \<^verbatim>\<open>toUpperCase\<close> and
  \<^verbatim>\<open>toLowerCase\<close> are modelled on the letters A to Z, every other character staying as it
  is. \<^verbatim>\<open>encodeURIComponent\<close> keeps the unreserved characters and writes every other
  character as a percent sign and two hexadecimal digits. \<^verbatim>\<open>path.join\<close> of a directory and
  a file name puts a slash between them.
\<close>

definition digit_char :: "nat \<Rightarrow> char" where
  "digit_char d = ''0123456789'' ! d"

fun show_nat :: "nat \<Rightarrow> string" where
  "show_nat n = (if n < 10 then [digit_char n] else show_nat (n div 10) @ [digit_char (n mod 10)])"

declare show_nat.simps [simp del]

definition upper_char :: "char \<Rightarrow> char" where
  "upper_char c =
     (case map_of (zip ''abcdefghijklmnopqrstuvwxyz'' ''ABCDEFGHIJKLMNOPQRSTUVWXYZ'') c of
        None \<Rightarrow> c | Some u \<Rightarrow> u)"

definition lower_char :: "char \<Rightarrow> char" where
  "lower_char c =
     (case map_of (zip ''ABCDEFGHIJKLMNOPQRSTUVWXYZ'' ''abcdefghijklmnopqrstuvwxyz'') c of
        None \<Rightarrow> c | Some l \<Rightarrow> l)"

definition toUpperCase :: "string \<Rightarrow> string" where
  "toUpperCase s = map upper_char s"

definition toLowerCase :: "string \<Rightarrow> string" where
  "toLowerCase s = map lower_char s"

fun join :: "string \<Rightarrow> string list \<Rightarrow> string" where
  "join sep [] = []"
| "join sep [x] = x"
| "join sep (x # y # ys) = x @ sep @ join sep (y # ys)"

definition hex_char :: "nat \<Rightarrow> char" where
  "hex_char d = ''0123456789ABCDEF'' ! d"

definition uri_unreserved :: "char \<Rightarrow> bool" where
  "uri_unreserved c =
     ((CHR ''A'' \<le> c \<and> c \<le> CHR ''Z'') \<or> (CHR ''a'' \<le> c \<and> c \<le> CHR ''z'')
      \<or> (CHR ''0'' \<le> c \<and> c \<le> CHR ''9'') \<or> c \<in> set ''-_.!~*()'' \<or> c = CHR 0x27)"

definition encodeURIComponent :: "string \<Rightarrow> string" where
  "encodeURIComponent s =
     concat (map (\<lambda>c. if uri_unreserved c then [c]
                       else [CHR ''%'', hex_char (of_char c div 16), hex_char (of_char c mod 16)]) s)"

subsection \<open>The world the script runs in\<close>

text \<open>
  A thrown value is \<^verbatim>\<open>undefined\<close> or an error with its message. What goes to the console
  is a list of arguments, each a text or a thrown value (\<^verbatim>\<open>e?.message || e\<close> is the message
  when there is a non-empty one, otherwise the value itself).

  Everything the script does to the outside is an event, and the run is the list of its
  events in their order: a request sent by \<^verbatim>\<open>fetch\<close>, a pause, the creation of the output
  directory, a call of \<^verbatim>\<open>fs.writeFile\<close>, a line on the console.

  A reply of the metadata endpoint has a status, a body read by \<^verbatim>\<open>res.json()\<close> and a body
  read by \<^verbatim>\<open>res.arrayBuffer()\<close>, each of which may reject. The JSON body is typed
  \<^verbatim>\<open>Array<{ cca2?: string, flags?: { svg?: string } }>\<close> in the source: an item has an optional
  \<^verbatim>\<open>cca2\<close> and an optional \<^verbatim>\<open>flags?.svg\<close>; \<open>NotIterable\<close> is a body the \<^verbatim>\<open>for ... of\<close> loop
  cannot go through, which makes the loop throw a \<^verbatim>\<open>TypeError\<close>.
\<close>

datatype thrown = Undefined | Error string

datatype console_arg = Text string | Thrown thrown

type_synonym bytes = "nat list"

datatype event =
    Fetch string
  | Sleep nat
  | Mkdir string
  | WriteFile string bytes
  | ConsoleError "console_arg list"
  | ConsoleLog "console_arg list"

record item =
  cca2 :: "string option"
  flags_svg :: "string option"

datatype payload = Items "item list" | NotIterable

record response =
  status :: nat
  json_body :: "thrown + payload"
  arrayBuffer :: "thrown + bytes"

datatype fetch_result = Rejected thrown | Resolved response

record env =
  net :: "nat \<Rightarrow> string \<Rightarrow> fetch_result"
  write_error :: "string \<Rightarrow> thrown option"
  OUTPUT_DIR :: string

record world =
  trace :: "event list"
  files :: "string \<rightharpoonup> bytes"
  exitCode :: nat

text \<open>
  The environment is what the script cannot control. \<open>net env t url\<close> is the outcome of a
  \<^verbatim>\<open>fetch\<close> of \<open>url\<close> sent when \<open>t\<close> events have happened: the promise rejects (no network,
  or the abort after \<^verbatim>\<open>REQUEST_TIMEOUT_MS\<close> = 20000 ms that \<^verbatim>\<open>fetchWithTimeout\<close> arms) or
  resolves with a reply. \<open>write_error env path\<close> is the error of \<^verbatim>\<open>fs.writeFile\<close> on that
  path, if it fails. \<open>OUTPUT_DIR env\<close> is \<^verbatim>\<open>path.join(process.cwd(), 'public', 'flags')\<close>.

  The state of a run is its events so far, the files of the output directory with their
  contents, and \<^verbatim>\<open>process.exitCode\<close>.
\<close>

definition emit :: "event \<Rightarrow> world \<Rightarrow> world" where
  "emit e w = w\<lparr>trace := trace w @ [e]\<rparr>"

definition ok :: "response \<Rightarrow> bool" where
  "ok res = (200 \<le> status res \<and> status res \<le> 299)"

definition message_or_self :: "thrown \<Rightarrow> console_arg" where
  "message_or_self e = (case e of Undefined \<Rightarrow> Thrown e | Error m \<Rightarrow> if m = [] then Thrown e else Text m)"

definition fetchWithTimeout :: "env \<Rightarrow> string \<Rightarrow> world \<Rightarrow> fetch_result \<times> world" where
  "fetchWithTimeout env url w = (net env (length (trace w)) url, emit (Fetch url) w)"

definition sleep :: "nat \<Rightarrow> world \<Rightarrow> world" where
  "sleep ms w = emit (Sleep ms) w"

definition http_error :: "response \<Rightarrow> string \<Rightarrow> thrown" where
  "http_error res url = Error (''HTTP '' @ show_nat (status res) @ '' for '' @ url)"

text \<open>The body of the \<^verbatim>\<open>try\<close> block of \<^verbatim>\<open>fetchJsonWithRetries\<close>, then the loop over
  \<open>attempt\<close> from 1 to \<^verbatim>\<open>RETRIES\<close>: a failed attempt is followed by \<^verbatim>\<open>sleep(500 * attempt)\<close>,
  also the last one, and when the loop is left \<^verbatim>\<open>lastError\<close> is thrown.\<close>

definition fetchJson_attempt :: "env \<Rightarrow> string \<Rightarrow> world \<Rightarrow> (thrown + payload) \<times> world" where
  "fetchJson_attempt env url w =
     (case fetchWithTimeout env url w of
        (Rejected e, w') \<Rightarrow> (Inl e, w')
      | (Resolved res, w') \<Rightarrow>
          if \<not> ok res then (Inl (http_error res url), w') else (json_body res, w'))"

function fetchJsonWithRetries_loop ::
  "env \<Rightarrow> string \<Rightarrow> nat \<Rightarrow> thrown \<Rightarrow> world \<Rightarrow> (thrown + payload) \<times> world" where
  "fetchJsonWithRetries_loop env url attempt lastError w =
     (if attempt \<le> RETRIES then
        (case fetchJson_attempt env url w of
           (Inr v, w') \<Rightarrow> (Inr v, w')
         | (Inl e, w') \<Rightarrow> fetchJsonWithRetries_loop env url (attempt + 1) e (sleep (500 * attempt) w'))
      else (Inl lastError, w))"
  by pat_completeness auto
termination
  by (relation "measure (\<lambda>(env, url, attempt, lastError, w). RETRIES + 1 - attempt)") auto

declare fetchJsonWithRetries_loop.simps [simp del]

definition fetchJsonWithRetries :: "env \<Rightarrow> string \<Rightarrow> world \<Rightarrow> (thrown + payload) \<times> world" where
  "fetchJsonWithRetries env url w = fetchJsonWithRetries_loop env url 1 Undefined w"

text \<open>\<^verbatim>\<open>download\<close> and \<^verbatim>\<open>downloadWithRetries\<close>: the same loop with a pause of
  \<^verbatim>\<open>400 * attempt\<close>.\<close>

definition download :: "env \<Rightarrow> string \<Rightarrow> world \<Rightarrow> (thrown + bytes) \<times> world" where
  "download env url w =
     (case fetchWithTimeout env url w of
        (Rejected e, w') \<Rightarrow> (Inl e, w')
      | (Resolved res, w') \<Rightarrow>
          if \<not> ok res then (Inl (http_error res url), w') else (arrayBuffer res, w'))"

function downloadWithRetries_loop ::
  "env \<Rightarrow> string \<Rightarrow> nat \<Rightarrow> thrown \<Rightarrow> world \<Rightarrow> (thrown + bytes) \<times> world" where
  "downloadWithRetries_loop env url attempt lastError w =
     (if attempt \<le> RETRIES then
        (case download env url w of
           (Inr v, w') \<Rightarrow> (Inr v, w')
         | (Inl e, w') \<Rightarrow> downloadWithRetries_loop env url (attempt + 1) e (sleep (400 * attempt) w'))
      else (Inl lastError, w))"
  by pat_completeness auto
termination
  by (relation "measure (\<lambda>(env, url, attempt, lastError, w). RETRIES + 1 - attempt)") auto

declare downloadWithRetries_loop.simps [simp del]

definition downloadWithRetries :: "env \<Rightarrow> string \<Rightarrow> world \<Rightarrow> (thrown + bytes) \<times> world" where
  "downloadWithRetries env url w = downloadWithRetries_loop env url 1 Undefined w"

text \<open>
  \<^verbatim>\<open>chunk(arr, size)\<close>: \<^verbatim>\<open>for (let i = 0; i < arr.length; i += size) out.push(arr.slice(i, i + size))\<close>.
  With \<open>size = 0\<close> and a non-empty array the loop never ends: \<open>None\<close>.
\<close>

definition slice :: "'a list \<Rightarrow> nat \<Rightarrow> nat \<Rightarrow> 'a list" where
  "slice arr start stop = take (stop - start) (drop start arr)"

function chunk_loop :: "'a list \<Rightarrow> nat \<Rightarrow> nat \<Rightarrow> 'a list list \<Rightarrow> 'a list list option" where
  "chunk_loop arr chunk_size i out =
     (if i < length arr then
        (if chunk_size = 0 then None
         else chunk_loop arr chunk_size (i + chunk_size) (out @ [slice arr i (i + chunk_size)]))
      else Some out)"
  by pat_completeness auto
termination
  by (relation "measure (\<lambda>(arr, chunk_size, i, out). length arr - i)") auto

declare chunk_loop.simps [simp del]

definition chunk :: "'a list \<Rightarrow> nat \<Rightarrow> 'a list list option" where
  "chunk arr chunk_size = chunk_loop arr chunk_size 0 []"

text \<open>\<^verbatim>\<open>getFlagUrlByCode\<close>: the inner loop over the items of a reply, then the loop over the
  chunks. A chunk whose lookup failed after its retries is logged and skipped
  (\<^verbatim>\<open>continue\<close>); nothing in the function throws for a failed lookup.\<close>

fun collect_items :: "item list \<Rightarrow> (string \<rightharpoonup> string) \<Rightarrow> (string \<rightharpoonup> string)" where
  "collect_items [] m = m"
| "collect_items (item # rest) m =
     (case (cca2 item, flags_svg item) of
        (Some code, Some svg) \<Rightarrow>
          if code = [] \<or> svg = [] then collect_items rest m
          else collect_items rest (m(toUpperCase code \<mapsto> svg))
      | _ \<Rightarrow> collect_items rest m)"

definition chunk_url :: "string list \<Rightarrow> string" where
  "chunk_url part =
     (let codesParam = encodeURIComponent (join '','' part)
      in RESTCOUNTRIES_ALPHA_URL @ ''?codes='' @ codesParam @ ''&fields=cca2,flags'')"

fun getFlagUrlByCode_loop ::
  "env \<Rightarrow> string list list \<Rightarrow> (string \<rightharpoonup> string) \<Rightarrow> world
     \<Rightarrow> (thrown + (string \<rightharpoonup> string)) \<times> world" where
  "getFlagUrlByCode_loop env [] m w = (Inr m, w)"
| "getFlagUrlByCode_loop env (part # rest) m w =
     (case fetchJsonWithRetries env (chunk_url part) w of
        (Inl e, w') \<Rightarrow>
          getFlagUrlByCode_loop env rest m
            (emit (ConsoleError
                [Text (''Failed to load chunk from restcountries ('' @ join '', '' part @ ''):''),
                 message_or_self e]) w')
      | (Inr NotIterable, w') \<Rightarrow> (Inl (Error ''data is not iterable''), w')
      | (Inr (Items data), w') \<Rightarrow> getFlagUrlByCode_loop env rest (collect_items data m) w')"

definition getFlagUrlByCode ::
  "env \<Rightarrow> string list \<Rightarrow> world \<Rightarrow> ((thrown + (string \<rightharpoonup> string)) \<times> world) option" where
  "getFlagUrlByCode env codes w =
     (case chunk codes CODES_PER_CHUNK of
        None \<Rightarrow> None
      | Some chunks \<Rightarrow> Some (getFlagUrlByCode_loop env chunks Map.empty w))"

text \<open>The file system, as far as the script uses it.\<close>

definition path_join :: "string \<Rightarrow> string \<Rightarrow> string" where
  "path_join dir name = dir @ ''/'' @ name"

definition outPath :: "env \<Rightarrow> string \<Rightarrow> string" where
  "outPath env code = path_join (OUTPUT_DIR env) (toLowerCase code @ ''.svg'')"

definition writeFile :: "env \<Rightarrow> string \<Rightarrow> bytes \<Rightarrow> world \<Rightarrow> (thrown + unit) \<times> world" where
  "writeFile env path data w =
     (case write_error env path of
        Some e \<Rightarrow> (Inl e, emit (WriteFile path data) w)
      | None \<Rightarrow> (Inr (), (emit (WriteFile path data) w)\<lparr>files := (files w)(path \<mapsto> data)\<rparr>))"

text \<open>
  \<^verbatim>\<open>main\<close> from line 117 on, for the list \<open>codes\<close> read from \<^verbatim>\<open>constants.ts\<close>: creating the
  directory (which is taken to succeed), resolving the URLs, the loop over the codes (\<open>download_each\<close>, with the
  counters \<^verbatim>\<open>ok\<close> and \<^verbatim>\<open>failed\<close>), the summary and the exit code. \<^verbatim>\<open>if (!url)\<close> holds for a
  code without an entry and for an empty URL (\<open>falsy_url\<close>). The \<^verbatim>\<open>catch\<close> around
  \<^verbatim>\<open>getFlagUrlByCode\<close> prints three lines, sets the exit code to 1 and returns.
  \<open>None\<close> is a run that never returns.
\<close>

definition falsy_url :: "string option \<Rightarrow> string option" where
  "falsy_url url = (case url of None \<Rightarrow> None | Some u \<Rightarrow> if u = [] then None else Some u)"

fun download_each ::
  "env \<Rightarrow> (string \<rightharpoonup> string) \<Rightarrow> string list \<Rightarrow> nat \<times> nat \<Rightarrow> world \<Rightarrow> (nat \<times> nat) \<times> world" where
  "download_each env flagUrlByCode [] (n_ok, failed) w = ((n_ok, failed), w)"
| "download_each env flagUrlByCode (code # rest) (n_ok, failed) w =
     (if files w (outPath env code) \<noteq> None then
        download_each env flagUrlByCode rest (n_ok + 1, failed) w
      else case falsy_url (flagUrlByCode code) of
        None \<Rightarrow>
          download_each env flagUrlByCode rest (n_ok, failed + 1)
            (emit (ConsoleError [Text (''Failed '' @ code @ '': no flag URL from restcountries'')]) w)
      | Some url \<Rightarrow>
          (case downloadWithRetries env url w of
             (Inl e, w') \<Rightarrow>
               download_each env flagUrlByCode rest (n_ok, failed + 1)
                 (emit (ConsoleError [Text (''Failed '' @ code @ '':''), message_or_self e]) w')
           | (Inr data, w') \<Rightarrow>
               (case writeFile env (outPath env code) data w' of
                  (Inl e, w'') \<Rightarrow>
                    download_each env flagUrlByCode rest (n_ok, failed + 1)
                      (emit (ConsoleError [Text (''Failed '' @ code @ '':''), message_or_self e]) w'')
                | (Inr _, w'') \<Rightarrow> download_each env flagUrlByCode rest (n_ok + 1, failed) w'')))"

definition report :: "env \<Rightarrow> nat \<times> nat \<Rightarrow> world \<Rightarrow> world" where
  "report env counts w =
     (case counts of (n_ok, failed) \<Rightarrow>
        (let w' = emit (ConsoleLog [Text (''Done. Saved/exists: '' @ show_nat n_ok @ ''. Failed: ''
                                     @ show_nat failed @ ''. Output: '' @ OUTPUT_DIR env)]) w
         in if failed > 0 then w'\<lparr>exitCode := 1\<rparr> else w'))"

definition main :: "env \<Rightarrow> string list \<Rightarrow> world \<Rightarrow> world option" where
  "main env codes w =
     (case getFlagUrlByCode env codes (emit (Mkdir (OUTPUT_DIR env)) w) of
        None \<Rightarrow> None
      | Some (Inl e, w') \<Rightarrow>
          Some ((emit (ConsoleError [message_or_self e])
                  (emit (ConsoleError [Text ''Check your internet/VPN/firewall and try again.''])
                    (emit (ConsoleError [Text ''Failed to load flag URLs from restcountries.com.'']) w')))
                \<lparr>exitCode := 1\<rparr>)
      | Some (Inr flagUrlByCode, w') \<Rightarrow>
          (case download_each env flagUrlByCode codes (0, 0) w' of
             (counts, w'') \<Rightarrow> Some (report env counts w'')))"

subsection \<open>Notions used to state the properties\<close>

text \<open>The outcome of one attempt whose request is sent at time \<open>t\<close>: of a metadata lookup
  (\<open>attempt_json\<close>) and of a download (\<open>attempt_bytes\<close>).\<close>

definition attempt_json :: "env \<Rightarrow> string \<Rightarrow> nat \<Rightarrow> thrown + payload" where
  "attempt_json env url t =
     (case net env t url of
        Rejected e \<Rightarrow> Inl e
      | Resolved res \<Rightarrow> if \<not> ok res then Inl (http_error res url) else json_body res)"

definition attempt_bytes :: "env \<Rightarrow> string \<Rightarrow> nat \<Rightarrow> thrown + bytes" where
  "attempt_bytes env url t =
     (case net env t url of
        Rejected e \<Rightarrow> Inl e
      | Resolved res \<Rightarrow> if \<not> ok res then Inl (http_error res url) else arrayBuffer res)"

text \<open>The events of the resolve phase are requests to the metadata endpoint, pauses and
  error lines. \<open>arrays_only\<close>: every JSON body the endpoint sends can be iterated, as its
  type in the source says. \<open>every_lookup_fails\<close>: no attempt of a metadata lookup succeeds,
  whenever it is made. \<open>abort_line\<close> is the first line of the \<^verbatim>\<open>catch\<close> in \<^verbatim>\<open>main\<close>,
  \<open>no_url_line\<close> the line for a code without a URL.\<close>

definition is_lookup_url :: "string \<Rightarrow> bool" where
  "is_lookup_url u =
     (take (length (RESTCOUNTRIES_ALPHA_URL @ ''?codes='')) u = RESTCOUNTRIES_ALPHA_URL @ ''?codes='')"

fun resolve_event :: "event \<Rightarrow> bool" where
  "resolve_event (Fetch u) = is_lookup_url u"
| "resolve_event (Sleep ms) = True"
| "resolve_event (ConsoleError args) = True"
| "resolve_event (Mkdir dir) = False"
| "resolve_event (WriteFile path data) = False"
| "resolve_event (ConsoleLog args) = False"

definition arrays_only :: "env \<Rightarrow> bool" where
  "arrays_only env = (\<forall>t url res. net env t url = Resolved res \<longrightarrow> json_body res \<noteq> Inr NotIterable)"

definition abort_line :: event where
  "abort_line = ConsoleError [Text ''Failed to load flag URLs from restcountries.com.'']"

definition no_url_line :: "string \<Rightarrow> event" where
  "no_url_line code = ConsoleError [Text (''Failed '' @ code @ '': no flag URL from restcountries'')]"

definition every_lookup_fails :: "env \<Rightarrow> bool" where
  "every_lookup_fails env = (\<forall>t url. \<exists>e. attempt_json env url t = Inl e)"

subsection \<open>Environments to run the script in\<close>

text \<open>\<open>populated\<close>: the endpoint answers every request with the flag of \<open>US\<close>, and
  \<open>w_populated\<close> already holds \<^verbatim>\<open>us.svg\<close>. \<open>unreachable\<close>: every request is rejected, and
  \<open>w0\<close> is the empty output directory. \<open>flaky\<close>: the requests sent before time 4 are
  rejected, the later ones are answered.\<close>

definition populated :: env where
  "populated =
     \<lparr>net = (\<lambda>t url. Resolved \<lparr>status = 200,
                json_body = Inr (Items [\<lparr>cca2 = Some ''US'', flags_svg = Some ''https://flagcdn.com/us.svg''\<rparr>]),
                arrayBuffer = Inr [60, 115, 118, 103, 62]\<rparr>),
      write_error = (\<lambda>p. None), OUTPUT_DIR = ''/app/public/flags''\<rparr>"

definition w_populated :: world where
  "w_populated = \<lparr>trace = [], files = [''/app/public/flags/us.svg'' \<mapsto> [60, 115, 118, 103, 62]], exitCode = 0\<rparr>"

definition unreachable :: env where
  "unreachable = \<lparr>net = (\<lambda>n url. Rejected (Error ''fetch failed'')), write_error = (\<lambda>p. None), OUTPUT_DIR = ''/app/public/flags''\<rparr>"

definition w0 :: world where
  "w0 = \<lparr>trace = [], files = Map.empty, exitCode = 0\<rparr>"


definition flaky :: env where
  "flaky =
     \<lparr>net = (\<lambda>t url. if t < 4 then Rejected (Error ''ETIMEDOUT'')
                else Resolved \<lparr>status = 200,
                       json_body = Inr (Items [\<lparr>cca2 = Some ''fr'', flags_svg = Some ''https://flagcdn.com/fr.svg''\<rparr>]),
                       arrayBuffer = Inr [60, 115, 118, 103, 62]\<rparr>),
      write_error = (\<lambda>p. None), OUTPUT_DIR = ''/app/public/flags''\<rparr>"

text \<open>A small snapshot used to run the operations: one full record for \<open>US\<close>, none for \<open>FR\<close>.\<close>

definition snapshot_demo :: UserData where
  "snapshot_demo = [''US'' \<mapsto> \<lparr>visited = Some True, date = Some ''2024-05-01'', photos = Some [''a'', ''b'']\<rparr>]"

chapter \<open>Properties\<close>

section \<open>VisitStore\<close>

lemmas chain_defs = chain_visited_def chain_date_def chain_photos_def truthy_def or_empty_def spread_def
lemmas view_defs = visited_of_def date_of_def photos_of_def

lemma splice_beyond_end: "int (length xs) \<le> i \<Longrightarrow> splice_array xs i 1 = xs"
  by (simp add: splice_array_def Let_def)

text \<open>
  C9. The single-photo handler is the batch handler on a one-element batch:
  for every snapshot, code and encoded image \<open>p\<close>, \<open>addPhoto(code, p)\<close> yields the same
  snapshot as \<open>addPhotos(code, [p])\<close>.
\<close>

theorem addPhoto_is_addPhotos_singleton:
  "addPhoto code p prev = addPhotos code [p] prev"
  by (simp add: addPhoto_def addPhotos_def)

text \<open>
  C4. \<open>removePhoto\<close> has no error branch: optional chaining, spreading \<^verbatim>\<open>undefined\<close> and
  \<^verbatim>\<open>splice\<close> raise for no index. For an index that is at least the length of the code's
  photo sequence (also when there is no record, the sequence then being empty) every photo
  sequence of the result equals the one of the input. A negative index is not a no-op:
  \<^verbatim>\<open>splice\<close> counts it from the end, so the photo at position \<open>max (length + index) 0\<close> is
  removed. The photo sequences of all other codes stay as they are for every index.
\<close>

theorem removePhoto_out_of_bounds:
  "(int (length (photos_of prev code)) \<le> index \<longrightarrow>
      (\<forall>c. photos_of (removePhoto code index prev) c = photos_of prev c))
   \<and> (index < 0 \<longrightarrow>
      photos_of (removePhoto code index prev) code =
        take (nat (int (length (photos_of prev code)) + index)) (photos_of prev code)
        @ drop (Suc (nat (int (length (photos_of prev code)) + index))) (photos_of prev code))
   \<and> (\<forall>c. c \<noteq> code \<longrightarrow> photos_of (removePhoto code index prev) c = photos_of prev c)"
proof (intro conjI impI allI)
  fix c assume "int (length (photos_of prev code)) \<le> index"
  then show "photos_of (removePhoto code index prev) c = photos_of prev c"
    by (simp add: removePhoto_def photos_of_def chain_photos_def or_empty_def splice_beyond_end
          split: option.splits)
next
  assume neg: "index < 0"
  define ps where "ps = photos_of prev code"
  have "splice_array ps index 1 = take (nat (int (length ps) + index)) ps @ drop (Suc (nat (int (length ps) + index))) ps"
  proof (cases "int (length ps) + index < 0")
    case True
    then show ?thesis using neg by (cases ps) (simp_all add: splice_array_def Let_def max_def)
  next
    case False
    then have "nat (int (length ps) + index + 1) = Suc (nat (int (length ps) + index))" by simp
    moreover have "int (length ps) - (int (length ps) + index) \<ge> 1" using neg by simp
    ultimately show ?thesis using neg False by (simp add: splice_array_def Let_def max_def min_def)
  qed
  then show "photos_of (removePhoto code index prev) code =
        take (nat (int (length (photos_of prev code)) + index)) (photos_of prev code)
        @ drop (Suc (nat (int (length (photos_of prev code)) + index))) (photos_of prev code)"
    by (simp add: ps_def removePhoto_def photos_of_def chain_photos_def or_empty_def)
next
  fix c assume "c \<noteq> code"
  then show "photos_of (removePhoto code index prev) c = photos_of prev c"
    by (simp add: removePhoto_def photos_of_def)
qed

text \<open>The operation run at an index beyond the end, at a negative index and on a code
  without a record.\<close>

theorem removePhoto_out_of_bounds_witness:
  "photos_of (removePhoto ''US'' 2 snapshot_demo) ''US'' = [''a'', ''b'']
   \<and> photos_of (removePhoto ''US'' (-2) snapshot_demo) ''US'' = [''b'']
   \<and> photos_of (removePhoto ''FR'' 0 snapshot_demo) ''US'' = [''a'', ''b'']"
  using removePhoto_out_of_bounds [of snapshot_demo "''US''" 2]
        removePhoto_out_of_bounds [of snapshot_demo "''US''" "-2"]
        removePhoto_out_of_bounds [of snapshot_demo "''FR''" 0]
  by (simp add: photos_of_def chain_photos_def or_empty_def snapshot_demo_def)

text \<open>Index \<open>-1\<close> is negative, hence out of bounds, and yet the last photo of \<open>US\<close> is removed.\<close>

theorem removePhoto_negative_index_counterexample:
  "(-1::int) < 0 \<and>
   photos_of (removePhoto ''US'' (-1) snapshot_demo) ''US'' = [''a'']
   \<and> photos_of snapshot_demo ''US'' = [''a'', ''b'']
   \<and> photos_of (removePhoto ''US'' (-1) snapshot_demo) ''US'' \<noteq> photos_of snapshot_demo ''US''"
  by (simp add: removePhoto_def photos_of_def chain_photos_def or_empty_def splice_array_def
        snapshot_demo_def spread_def)

text \<open>
  C6. Toggling twice gives back the original \<open>visited\<close> value (false when there was no
  record) and leaves date and photos as they were, each read the way the component reads
  them. Without an original record the result is the record with \<open>visited = false\<close>, no date
  and no photos; with an original record of the full shape the whole snapshot is the
  original one.
\<close>

theorem toggleVisit_twice:
  "visited_of (toggleVisit code (toggleVisit code prev)) code = visited_of prev code
   \<and> date_of (toggleVisit code (toggleVisit code prev)) code = date_of prev code
   \<and> photos_of (toggleVisit code (toggleVisit code prev)) code = photos_of prev code
   \<and> (prev code = None \<longrightarrow>
        toggleVisit code (toggleVisit code prev) code
          = Some \<lparr>visited = Some False, date = None, photos = Some []\<rparr>)
   \<and> (\<forall>r. prev code = Some r \<and> full_shape r \<longrightarrow>
        toggleVisit code (toggleVisit code prev) = prev)"
  by (auto simp: toggleVisit_def view_defs chain_defs full_shape_def fun_eq_iff split: option.splits)

theorem toggleVisit_twice_witness:
  "toggleVisit ''FR'' (toggleVisit ''FR'' snapshot_demo) ''FR''
      = Some \<lparr>visited = Some False, date = None, photos = Some []\<rparr>
   \<and> toggleVisit ''US'' (toggleVisit ''US'' snapshot_demo) = snapshot_demo"
proof -
  have absent: "snapshot_demo ''FR'' = None"
    by (simp add: snapshot_demo_def)
  have present: "snapshot_demo ''US''
        = Some \<lparr>visited = Some True, date = Some ''2024-05-01'', photos = Some [''a'', ''b'']\<rparr>
      \<and> full_shape \<lparr>visited = Some True, date = Some ''2024-05-01'', photos = Some [''a'', ''b'']\<rparr>"
    by (simp add: snapshot_demo_def full_shape_def)
  from absent toggleVisit_twice [of "''FR''" snapshot_demo]
  have "toggleVisit ''FR'' (toggleVisit ''FR'' snapshot_demo) ''FR''
      = Some \<lparr>visited = Some False, date = None, photos = Some []\<rparr>" by blast
  moreover from present toggleVisit_twice [of "''US''" snapshot_demo]
  have "toggleVisit ''US'' (toggleVisit ''US'' snapshot_demo) = snapshot_demo" by blast
  ultimately show ?thesis by simp
qed

text \<open>
  C7. \<open>addPhotos(code, [])\<close> returns the snapshot unchanged. For a non-empty sequence of
  images, the photo sequence of the code becomes the old one followed by the images in
  their order; an existing record keeps its other fields, a missing one is created from
  \<open>visited = false\<close>, the empty date and the empty photo sequence; no other code is touched.
\<close>

theorem addPhotos_appends:
  "addPhotos code [] prev = prev
   \<and> (images \<noteq> [] \<longrightarrow>
        photos_of (addPhotos code images prev) code = photos_of prev code @ images
        \<and> visited_of (addPhotos code images prev) code = visited_of prev code
        \<and> (\<forall>r. prev code = Some r \<longrightarrow>
              addPhotos code images prev code = Some (r\<lparr>photos := Some (or_empty (photos r) @ images)\<rparr>))
        \<and> (prev code = None \<longrightarrow>
              addPhotos code images prev code
                = Some \<lparr>visited = Some False, date = Some [], photos = Some images\<rparr>)
        \<and> (\<forall>c. c \<noteq> code \<longrightarrow> addPhotos code images prev c = prev c))"
  by (auto simp: addPhotos_def view_defs chain_defs current_or_default_def Let_def split: option.splits)

theorem addPhotos_appends_witness:
  "[''c'', ''d''] \<noteq> ([]::string list)
   \<and> photos_of (addPhotos ''US'' [''c'', ''d''] snapshot_demo) ''US'' = [''a'', ''b'', ''c'', ''d'']
   \<and> addPhotos ''FR'' [''c'', ''d''] snapshot_demo ''FR''
        = Some \<lparr>visited = Some False, date = Some [], photos = Some [''c'', ''d'']\<rparr>
   \<and> addPhotos ''FR'' [''c'', ''d''] snapshot_demo ''US'' = snapshot_demo ''US''"
  using addPhotos_appends [of "''US''" snapshot_demo "[''c'', ''d'']"]
        addPhotos_appends [of "''FR''" snapshot_demo "[''c'', ''d'']"]
  by (simp add: photos_of_def chain_photos_def or_empty_def snapshot_demo_def)

text \<open>
  C10. On a snapshot without a record for the code, \<open>updateDate\<close> creates a record that holds
  the date only: \<open>visited\<close> and \<open>photos\<close> are absent (\<^verbatim>\<open>undefined\<close>), not \<open>false\<close> and the
  empty sequence, so the record does not have the full shape of \<^verbatim>\<open>CountryVisit\<close>.
\<close>

theorem updateDate_creates_partial_record:
  "prev code = None \<Longrightarrow>
     updateDate code d prev code = Some \<lparr>visited = None, date = Some d, photos = None\<rparr>
     \<and> \<not> full_shape (the (updateDate code d prev code))"
  by (simp add: updateDate_def spread_def full_shape_def)

theorem updateDate_creates_partial_record_witness:
  "snapshot_demo ''FR'' = None
   \<and> updateDate ''FR'' ''2024-06-01'' snapshot_demo ''FR''
       = Some \<lparr>visited = None, date = Some ''2024-06-01'', photos = None\<rparr>"
  using updateDate_creates_partial_record [of snapshot_demo "''FR''" "''2024-06-01''"]
  by (simp add: snapshot_demo_def)

section \<open>ImageCompressor\<close>

subsection \<open>Rounding to binary64\<close>

lemma bit_length_bounds: "0 < n \<Longrightarrow> 2 ^ (bit_length n - 1) \<le> n \<and> n < 2 ^ bit_length n"
proof (induction n rule: bit_length.induct)
  case (1 n)
  show ?case
  proof (cases "n div 2 = 0")
    case True
    with 1(2) have "n = 1" by (simp add: div_eq_0_iff) 
    then show ?thesis by (simp add: bit_length.simps [of "Suc 0"] bit_length.simps [of 0])
  next
    case False
    then have pos: "0 < n div 2" by simp
    from 1(1) [OF _ pos] 1(2)
    have ih: "2 ^ (bit_length (n div 2) - 1) \<le> n div 2" "n div 2 < 2 ^ bit_length (n div 2)" by simp_all
    have k: "0 < bit_length (n div 2)"
      using pos by (subst bit_length.simps) simp
    have eq: "bit_length n = Suc (bit_length (n div 2))"
      using 1(2) by (subst bit_length.simps) simp
    have "(2::nat) ^ bit_length (n div 2) = 2 * 2 ^ (bit_length (n div 2) - 1)"
      using k by (cases "bit_length (n div 2)") simp_all
    then have "2 ^ bit_length (n div 2) \<le> 2 * (n div 2)" using ih(1) by simp
    also have "\<dots> \<le> n" by simp
    finally have lo: "2 ^ bit_length (n div 2) \<le> n" .
    have "n < 2 * (n div 2) + 2" by presburger
    also have "\<dots> \<le> 2 * 2 ^ bit_length (n div 2)" using ih(2) by simp
    finally have hi: "n < 2 ^ Suc (bit_length (n div 2))" by simp
    show ?thesis using lo hi by (simp add: eq)
  qed
qed

lemma exponent_bounds:
  assumes "0 < x"
  shows "2 powi exponent x \<le> x \<and> x < 2 powi (exponent x + 1)"
proof (cases "1 \<le> x")
  case True
  define n where "n = nat \<lfloor>x\<rfloor>"
  have fl: "1 \<le> \<lfloor>x\<rfloor>" using True by (simp add: le_floor_iff)
  then have n: "0 < n" "int n = \<lfloor>x\<rfloor>" by (simp_all add: n_def)
  from bit_length_bounds [OF n(1)]
  have lo: "2 ^ (bit_length n - 1) \<le> n" and hi: "n < 2 ^ bit_length n" by simp_all
  have k: "0 < bit_length n" using n(1) by (subst bit_length.simps) simp
  have e: "exponent x = int (bit_length n - 1)" "exponent x + 1 = int (bit_length n)"
    using True k by (simp_all add: exponent_def n_def of_nat_diff)
  have "(2::rat) ^ (bit_length n - 1) \<le> of_nat n"
    using lo by (metis of_nat_le_iff of_nat_numeral of_nat_power)
  also have nr: "(of_nat n :: rat) = of_int \<lfloor>x\<rfloor>" using n(2) by (metis of_int_of_nat_eq)
  also have "\<dots> \<le> x" by simp
  finally have a: "2 powi exponent x \<le> x" by (simp only: e(1) power_int_of_nat)
  have "n + 1 \<le> 2 ^ bit_length n" using hi by simp
  then have "(of_nat (n + 1) :: rat) \<le> 2 ^ bit_length n"
    by (metis of_nat_le_iff of_nat_numeral of_nat_power)
  moreover have "x < of_int \<lfloor>x\<rfloor> + 1" by linarith
  moreover have "(of_nat (n + 1) :: rat) = of_int \<lfloor>x\<rfloor> + 1"
    using nr by simp
  ultimately have "x < 2 ^ bit_length n" by linarith
  then have b: "x < 2 powi (exponent x + 1)" by (simp only: e(2) power_int_of_nat)
  show ?thesis using a b by simp
next
  case False
  define y where "y = 1 / x"
  have y: "1 < y" using assms False by (simp add: y_def)
  define n where "n = nat (\<lceil>y\<rceil> - 1)"
  have c: "2 \<le> \<lceil>y\<rceil>" using y by (simp add: le_ceiling_iff) 
  then have n: "0 < n" "int n = \<lceil>y\<rceil> - 1" by (simp_all add: n_def)
  from bit_length_bounds [OF n(1)]
  have lo: "2 ^ (bit_length n - 1) \<le> n" and hi: "n < 2 ^ bit_length n" by simp_all
  have k: "0 < bit_length n" using n(1) by (subst bit_length.simps) simp
  have e: "exponent x = - int (bit_length n)" "exponent x + 1 = - int (bit_length n - 1)"
    using False k by (simp_all add: exponent_def n_def y_def of_nat_diff)
  have "n + 1 \<le> 2 ^ bit_length n" using hi by simp
  then have "(of_nat (n + 1) :: rat) \<le> 2 ^ bit_length n"
    by (metis of_nat_le_iff of_nat_numeral of_nat_power)
  moreover have nr: "(of_nat n :: rat) = of_int \<lceil>y\<rceil> - 1"
    using n(2) by (metis of_int_of_nat_eq of_int_diff of_int_1)
  then have "(of_nat (n + 1) :: rat) = of_int \<lceil>y\<rceil>" by simp
  moreover have "y \<le> of_int \<lceil>y\<rceil>" by simp
  ultimately have yhi: "y \<le> 2 ^ bit_length n" by linarith
  have "(2::rat) ^ (bit_length n - 1) \<le> of_nat n"
    using lo by (metis of_nat_le_iff of_nat_numeral of_nat_power)
  moreover note nr
  moreover have "of_int \<lceil>y\<rceil> - 1 < y" by linarith
  ultimately have ylo: "2 ^ (bit_length n - 1) < y" by linarith
  have xy: "x = 1 / y" using assms by (simp add: y_def)
  have "1 / 2 ^ bit_length n \<le> 1 / y"
    using yhi y by (intro divide_left_mono) simp_all
  then have a: "2 powi exponent x \<le> x"
    by (simp only: e(1) power_int_minus_divide power_int_of_nat) (simp add: xy)
  have "1 / y < 1 / 2 ^ (bit_length n - 1)"
    using ylo y by (intro divide_strict_left_mono) simp_all
  then have b: "x < 2 powi (exponent x + 1)"
    by (simp only: e(2) power_int_minus_divide power_int_of_nat) (simp add: xy)
  show ?thesis using a b by simp
qed

lemma round_even_cases:
  "round_even y = \<lfloor>y\<rfloor> \<or> (round_even y = \<lfloor>y\<rfloor> + 1 \<and> 1 / 2 \<le> y - of_int \<lfloor>y\<rfloor>)"
  by (auto simp: round_even_def Let_def)

lemma round_even_of_int [simp]: "round_even (of_int z) = z"
  by (simp add: round_even_def)

lemma round_even_ge:
  assumes "of_int z \<le> y"
  shows "z \<le> round_even y"
proof -
  have "z \<le> \<lfloor>y\<rfloor>" using assms by (simp add: le_floor_iff)
  then show ?thesis using round_even_cases [of y] by linarith
qed

lemma round_even_le:
  assumes "y \<le> of_int z"
  shows "round_even y \<le> z"
proof (cases "y = of_int z")
  case True
  then show ?thesis by simp
next
  case False
  with assms have "y < of_int z" by simp
  then have "\<lfloor>y\<rfloor> < z" by (simp add: floor_less_iff)
  then show ?thesis using round_even_cases [of y] by auto
qed

lemma round_even_upper: "of_int (round_even y) \<le> y + 1 / 2"
proof -
  have low: "of_int \<lfloor>y\<rfloor> \<le> y" by simp
  from round_even_cases [of y] show ?thesis
  proof
    assume "round_even y = \<lfloor>y\<rfloor>"
    then have "(of_int (round_even y) :: rat) = of_int \<lfloor>y\<rfloor>" by simp
    with low show ?thesis by linarith
  next
    assume up: "round_even y = \<lfloor>y\<rfloor> + 1 \<and> 1 / 2 \<le> y - of_int \<lfloor>y\<rfloor>"
    then have "(of_int (round_even y) :: rat) = of_int \<lfloor>y\<rfloor> + 1" by simp
    with up show ?thesis by linarith
  qed
qed

lemma binary64_pos:
  assumes "0 < x"
  shows "binary64 x = of_int (round_even (x / 2 powi (max (exponent x) (- 1022) - 52)))
           * 2 powi (max (exponent x) (- 1022) - 52)"
  using assms by (simp add: binary64_def Let_def)

lemma pow2_pos: "(0::rat) < 2 powi e"
  by (simp add: zero_less_power_int)

lemma pow2_less_cancel:
  assumes "(2::rat) powi a < 2 powi b"
  shows "a < b"
proof (rule ccontr)
  assume "\<not> a < b"
  then have "b \<le> a" by simp
  then have "(2::rat) powi b \<le> 2 powi a" by (intro power_int_increasing) simp_all
  with assms show False by simp
qed

lemma pow2_split: "(2::rat) powi a = 2 powi (a - b) * 2 powi b"
  by (simp add: power_int_add [symmetric])

lemma binary64_nonneg:
  assumes "0 \<le> x"
  shows "0 \<le> binary64 x"
proof (cases "x = 0")
  case True
  then show ?thesis by (simp add: binary64_def)
next
  case False
  with assms have pos: "0 < x" by simp
  define u :: rat where "u = 2 powi (max (exponent x) (- 1022) - 52)"
  have u: "0 < u" by (simp add: u_def pow2_pos)
  have "of_int 0 \<le> x / u" using pos u by simp
  then have "0 \<le> round_even (x / u)" by (rule round_even_ge)
  then show ?thesis using u by (simp add: binary64_pos [OF pos] u_def [symmetric])
qed

lemma exponent_nonneg:
  assumes "1 \<le> x"
  shows "0 \<le> exponent x"
proof -
  have "1 \<le> \<lfloor>x\<rfloor>" using assms by (simp add: le_floor_iff)
  then have "0 < nat \<lfloor>x\<rfloor>" by simp
  then have "0 < bit_length (nat \<lfloor>x\<rfloor>)" by (subst bit_length.simps) simp
  then show ?thesis using assms by (simp add: exponent_def)
qed

lemma exponent_neg: "0 < x \<Longrightarrow> x < 1 \<Longrightarrow> exponent x < 0"
proof -
  assume x: "0 < x" "x < 1"
  then have "1 < 1 / x" by simp
  then have "2 \<le> \<lceil>1 / x\<rceil>" by (simp add: le_ceiling_iff)
  then have "0 < nat (\<lceil>1 / x\<rceil> - 1)" by simp
  then have "0 < bit_length (nat (\<lceil>1 / x\<rceil> - 1))" by (subst bit_length.simps) simp
  then show ?thesis using x by (simp add: exponent_def)
qed

lemma binary64_ge_pow2:
  assumes pos: "0 < x" and normal: "- 1022 \<le> exponent x"
  shows "2 powi exponent x \<le> binary64 x"
proof -
  define e where "e = exponent x"
  define u :: rat where "u = 2 powi (e - 52)"
  have u: "0 < u" by (simp add: u_def pow2_pos)
  have m: "max e (- 1022) = e" using normal by (simp add: e_def)
  have split: "(2::rat) powi e = 2 powi 52 * u"
    using pow2_split [of e "e - 52"] by (simp add: u_def)
  have "2 powi e \<le> x" using exponent_bounds [OF pos] by (simp add: e_def)
  then have "2 powi 52 * u \<le> x" by (simp add: split)
  then have "of_int (2 ^ 52) \<le> x / u" using u by (simp add: pos_le_divide_eq)
  then have "2 ^ 52 \<le> round_even (x / u)" by (rule round_even_ge)
  then have "(of_int (2 ^ 52) :: rat) \<le> of_int (round_even (x / u))" by (simp only: of_int_le_iff)
  then have "of_int (2 ^ 52) * u \<le> of_int (round_even (x / u)) * u"
    using u by (simp only: mult_le_cancel_right_pos)
  then show ?thesis
    by (simp add: binary64_pos [OF pos] e_def [symmetric] m u_def [symmetric] split)
qed

lemma binary64_ge_1:
  assumes "1 \<le> x"
  shows "1 \<le> binary64 x"
proof -
  have pos: "0 < x" using assms by simp
  have e: "0 \<le> exponent x" using assms by (rule exponent_nonneg)
  then have "(1::rat) \<le> 2 powi exponent x" by (simp add: one_le_power_int)
  also have "\<dots> \<le> binary64 x" using pos e by (intro binary64_ge_pow2) simp_all
  finally show ?thesis .
qed

lemma binary64_le_pow2:
  assumes pos: "0 < x"
  shows "binary64 x \<le> 2 powi (max (exponent x) (- 1022) + 1)"
proof -
  define e where "e = max (exponent x) (- 1022)"
  define u :: rat where "u = 2 powi (e - 52)"
  have u: "0 < u" by (simp add: u_def pow2_pos)
  have split: "(2::rat) powi (e + 1) = 2 powi 53 * u"
    using pow2_split [of "e + 1" "e - 52"] by (simp add: u_def)
  have "x < 2 powi (exponent x + 1)" using exponent_bounds [OF pos] by simp
  also have "\<dots> \<le> 2 powi (e + 1)" by (intro power_int_increasing) (simp_all add: e_def)
  finally have "x \<le> 2 powi 53 * u" by (simp add: split)
  then have "x / u \<le> of_int (2 ^ 53)" using u by (simp add: pos_divide_le_eq)
  then have "round_even (x / u) \<le> 2 ^ 53" by (rule round_even_le)
  then have "(of_int (round_even (x / u)) :: rat) \<le> of_int (2 ^ 53)" by (simp only: of_int_le_iff)
  then have "of_int (round_even (x / u)) * u \<le> of_int (2 ^ 53) * u"
    using u by (simp only: mult_le_cancel_right_pos)
  then show ?thesis
    by (simp add: binary64_pos [OF pos] u_def [symmetric] e_def [symmetric] split)
qed

lemma binary64_of_nat:
  assumes "n < 2 ^ 53"
  shows "binary64 (of_nat n) = of_nat n"
proof (cases "n = 0")
  case True
  then show ?thesis by (simp add: binary64_def)
next
  case False
  define x :: rat where "x = of_nat n"
  have pos: "0 < x" and one: "1 \<le> x" using False by (simp_all add: x_def)
  define e where "e = exponent x"
  have e0: "0 \<le> e" using one by (simp add: e_def exponent_nonneg)
  have "2 powi e \<le> x" using exponent_bounds [OF pos] by (simp add: e_def)
  moreover have "(of_nat n :: rat) < 2 ^ 53"
    using assms by (metis of_nat_less_iff of_nat_numeral of_nat_power)
  ultimately have "(2::rat) powi e < 2 powi 53" by (simp add: x_def)
  then have e53: "e < 53" by (rule pow2_less_cancel)
  define k where "k = nat (52 - e)"
  have k: "e - 52 = - int k" using e53 by (simp add: k_def)
  have u: "(2::rat) powi (e - 52) = 1 / 2 ^ k"
    by (simp only: k power_int_minus_divide power_int_of_nat)
  have m: "max e (- 1022) = e" using e0 by simp
  have "x / (1 / 2 ^ k) = of_int (int n * 2 ^ k)" by (simp add: x_def)
  then have "round_even (x / (1 / 2 ^ k)) = int n * 2 ^ k" by (simp only: round_even_of_int)
  then have "binary64 x = x"
    by (simp add: binary64_pos [OF pos] e_def [symmetric] m u) (simp add: x_def)
  then show ?thesis by (simp add: x_def)
qed

lemma binary64_le_1:
  assumes "0 \<le> x" and "x \<le> 1"
  shows "binary64 x \<le> 1"
proof -
  consider "x = 0" | "x = 1" | "0 < x" "x < 1" using assms by linarith
  then show ?thesis
  proof cases
    case 1
    then show ?thesis by (simp add: binary64_def)
  next
    case 2
    then show ?thesis using binary64_of_nat [of 1] by simp
  next
    case 3
    have "exponent x < 0" using 3 by (rule exponent_neg)
    then have "max (exponent x) (- 1022) + 1 \<le> 0" by simp
    then have "(2::rat) powi (max (exponent x) (- 1022) + 1) \<le> 2 powi 0"
      by (intro power_int_increasing) simp_all
    with binary64_le_pow2 [OF 3(1)] show ?thesis by simp
  qed
qed

lemma binary64_error:
  assumes normal: "2 powi (- 1022) \<le> x"
  shows "binary64 x \<le> x * (1 + 1 / 2 ^ 53)"
proof -
  have pos: "0 < x" using normal pow2_pos [of "- 1022"] by linarith
  define e where "e = exponent x"
  have "(2::rat) powi (- 1022) < 2 powi (e + 1)"
    using exponent_bounds [OF pos] normal by (simp add: e_def)
  then have "- 1022 < e + 1" by (rule pow2_less_cancel)
  then have e: "- 1022 \<le> e" by simp
  define u :: rat where "u = 2 powi (e - 52)"
  have u: "0 < u" by (simp add: u_def pow2_pos)
  have m: "max e (- 1022) = e" using e by simp
  have "of_int (round_even (x / u)) \<le> x / u + 1 / 2" by (rule round_even_upper)
  then have "of_int (round_even (x / u)) * u \<le> (x / u + 1 / 2) * u"
    using u by (simp only: mult_le_cancel_right_pos)
  also have "\<dots> = x + u / 2" using u by (simp add: algebra_simps)
  finally have b: "binary64 x \<le> x + u / 2"
    by (simp add: binary64_pos [OF pos] e_def [symmetric] m u_def [symmetric])
  have "(2::rat) powi e = 2 powi 52 * u"
    using pow2_split [of e "e - 52"] by (simp add: u_def)
  moreover have "2 powi e \<le> x" using exponent_bounds [OF pos] by (simp add: e_def)
  ultimately have "2 ^ 52 * u \<le> x" by simp
  then have "u / 2 \<le> x * (1 / 2 ^ 53)" by simp
  with b show ?thesis by (simp add: algebra_simps)
qed

lemma js_round_of_nat: "js_round (of_nat n) = int n"
proof -
  have "\<lfloor>(of_nat n :: rat) + 1 / 2\<rfloor> = int n"
    by (rule floor_unique) simp_all
  then show ?thesis by (simp add: js_round_def)
qed

subsection \<open>The bounds of the target size\<close>

lemma scaled_side_le:
  assumes side: "side \<le> m" and m: "0 < m" "m < 2 ^ 32" and M: "1 \<le> M"
  shows "max 1 (js_round (binary64 (of_nat side * min 1 (binary64 (of_nat M / of_nat m))))) \<le> int M"
proof -
  have p32: "(2::nat) ^ 32 \<le> 2 ^ 53" by (rule power_increasing) simp_all
  have side53: "side < 2 ^ 53" using side m p32 by linarith
  have mr: "(of_nat m :: rat) < 2 ^ 32"
    using m(2) by (metis of_nat_less_iff of_nat_numeral of_nat_power)
  define q :: rat where "q = of_nat M / of_nat m"
  define s where "s = min 1 (binary64 q)"
  have q0: "0 < q" using M m by (simp add: q_def)
  have s0: "0 \<le> s" using binary64_nonneg [of q] q0 by (simp add: s_def)
  have s1: "s \<le> 1" by (simp add: s_def)
  have "js_round (binary64 (of_nat side * s)) \<le> int M"
  proof (cases "m \<le> M")
    case True
    then have "1 \<le> q" using m by (simp add: q_def)
    then have "1 \<le> binary64 q" by (rule binary64_ge_1)
    then have "s = 1" by (simp add: s_def)
    then have "binary64 (of_nat side * s) = of_nat side"
      using binary64_of_nat [OF side53] by simp
    then have "js_round (binary64 (of_nat side * s)) = int side" by (simp add: js_round_of_nat)
    then show ?thesis using side True by simp
  next
    case False
    define u :: rat where "u = 1 / 2 ^ 53"
    have u: "0 < u" by (simp add: u_def)
    have "(of_nat M :: rat) < of_nat m" using False by simp
    with mr have Mlt32: "(of_nat M :: rat) < 2 ^ 32" by linarith
    have qlow: "2 powi (- 1022) \<le> q"
    proof -
      have "(2::rat) powi (- 1022) \<le> 2 powi (- 32)" by (intro power_int_increasing) simp_all
      also have "\<dots> = 1 / 2 ^ 32" by (simp add: power_int_minus_divide)
      also have "\<dots> \<le> 1 / of_nat m" using mr m by (intro divide_left_mono) simp_all
      also have "\<dots> \<le> q" using M m by (simp add: q_def divide_right_mono)
      finally show ?thesis .
    qed
    have "s \<le> binary64 q" by (simp add: s_def)
    also have "\<dots> \<le> q * (1 + u)" using binary64_error [OF qlow] by (simp add: u_def)
    finally have s_le: "s \<le> q * (1 + u)" .
    define x where "x = of_nat side * s"
    have x0: "0 \<le> x" using s0 by (simp add: x_def)
    have bound: "binary64 x < of_nat M + 1 / 2"
    proof (cases "2 powi (- 1022) \<le> x")
      case True
      have "binary64 x \<le> x * (1 + u)" using binary64_error [OF True] by (simp add: u_def)
      also have "\<dots> \<le> (of_nat side * (q * (1 + u))) * (1 + u)"
        using s_le u by (simp add: x_def mult_left_mono mult_right_mono)
      also have "\<dots> = (of_nat side / of_nat m) * (of_nat M * ((1 + u) * (1 + u)))"
        by (simp add: q_def)
      also have "\<dots> \<le> 1 * (of_nat M * ((1 + u) * (1 + u)))"
      proof (rule mult_right_mono)
        show "(of_nat side :: rat) / of_nat m \<le> 1" using side m by simp
        show "0 \<le> (of_nat M :: rat) * ((1 + u) * (1 + u))" using u by simp
      qed
      finally have b1: "binary64 x \<le> of_nat M * ((1 + u) * (1 + u))" by simp
      have "(of_nat M :: rat) * ((1 + u) * (1 + u)) = of_nat M + of_nat M * (2 * u + u * u)"
        by (simp add: algebra_simps)
      moreover have "(of_nat M :: rat) * (2 * u + u * u) < 1 / 2"
      proof -
        have small: "2 * u + u * u \<le> 1 / 2 ^ 50" by (simp add: u_def)
        have pos: "0 < 2 * u + u * u" by (intro add_pos_pos mult_pos_pos u) simp
        have "(of_nat M :: rat) * (2 * u + u * u) < 2 ^ 32 * (2 * u + u * u)"
          using Mlt32 pos by (rule mult_strict_right_mono)
        also have "\<dots> \<le> 2 ^ 32 * (1 / 2 ^ 50)"
          using small by (rule mult_left_mono) simp
        also have "\<dots> \<le> 1 / 2" by simp
        finally show ?thesis .
      qed
      ultimately show ?thesis using b1 by linarith
    next
      case False
      have "(2::rat) powi (- 1022) \<le> 2 powi 0" by (intro power_int_increasing) simp_all
      with False have "x \<le> 1" by simp
      with x0 have "binary64 x \<le> 1" by (rule binary64_le_1)
      moreover have "(1::rat) \<le> of_nat M" using M by simp
      ultimately show ?thesis by linarith
    qed
    then have "binary64 x + 1 / 2 < of_int (int M + 1)" by simp
    then have "\<lfloor>binary64 x + 1 / 2\<rfloor> < int M + 1" by (simp only: floor_less_iff)
    then show ?thesis by (simp add: js_round_def x_def)
  qed
  moreover have "1 \<le> int M" using M by simp
  ultimately show ?thesis by (simp add: s_def q_def)
qed

text \<open>
  C5. For a decoded image of width \<open>w\<close> and height \<open>h\<close>, both at least 1 (and below \<open>2 ^ 32\<close>:
  the image element reports unsigned 32-bit integers), and every \<open>maxDimension\<close> of at
  least 1 pixel, \<open>compress\<close> computes the scale \<open>min(1, maxDimension / max(w, h))\<close> and the
  target size \<open>max(1, round(w * scale))\<close> by \<open>max(1, round(h * scale))\<close>, in the arithmetic of
  JavaScript; both sides of the output are at least 1 and the longest is at most
  \<open>maxDimension\<close>.
\<close>

theorem compress_target_bounds:
  assumes "1 \<le> w" and "w < 2 ^ 32" and "1 \<le> h" and "h < 2 ^ 32" and "1 \<le> maxDimension"
  shows "\<exists>scale targetW targetH.
           compressImageToDataUrl True (Decoded w h) (of_nat maxDimension) = Inr (targetW, targetH)
         \<and> scale = min 1 (binary64 (of_nat maxDimension / of_nat (max w h)))
         \<and> targetW = max 1 (js_round (binary64 (of_nat w * scale)))
         \<and> targetH = max 1 (js_round (binary64 (of_nat h * scale)))
         \<and> 1 \<le> targetW \<and> 1 \<le> targetH
         \<and> max targetW targetH \<le> int maxDimension"
proof -
  have m: "0 < max w h" "max w h < 2 ^ 32" using assms by auto
  have nz: "w \<noteq> 0" using assms(1) by simp
  have "max 1 (js_round (binary64 (of_nat w * min 1 (binary64 (of_nat maxDimension / of_nat (max w h))))))
          \<le> int maxDimension"
    using assms m by (intro scaled_side_le) simp_all
  moreover
  have "max 1 (js_round (binary64 (of_nat h * min 1 (binary64 (of_nat maxDimension / of_nat (max w h))))))
          \<le> int maxDimension"
    using assms m by (intro scaled_side_le) simp_all
  ultimately show ?thesis
    using nz by (simp add: compressImageToDataUrl_def target_size_def Let_def)
qed

text \<open>At the default \<open>maxSize = 1600\<close>: a 3712 by 145 image is scaled to 1600 by 62 (the
  product \<open>145 * scale\<close> is rounded to a number just below 62.5), a 4000 by 3000 image to
  1600 by 1200, and a 640 by 480 image keeps its size.\<close>

theorem compress_target_bounds_witness:
  "compressImageToDataUrl True (Decoded 3712 145) 1600 = Inr (1600, 62)
   \<and> compressImageToDataUrl True (Decoded 4000 3000) 1600 = Inr (1600, 1200)
   \<and> compressImageToDataUrl True (Decoded 640 480) 1600 = Inr (640, 480)"
proof -
  have a: "compressImageToDataUrl True (Decoded 3712 145) 1600 = Inr (1600, 62)"
    by (simp add: compressImageToDataUrl_def target_size_def Let_def, code_simp)
  have b: "compressImageToDataUrl True (Decoded 4000 3000) 1600 = Inr (1600, 1200)"
    by (simp add: compressImageToDataUrl_def target_size_def Let_def, code_simp)
  have c: "compressImageToDataUrl True (Decoded 640 480) 1600 = Inr (640, 480)"
    by (simp add: compressImageToDataUrl_def target_size_def Let_def, code_simp)
  from compress_target_bounds [of 3712 145 1600]
  have "\<exists>targetW targetH.
      compressImageToDataUrl True (Decoded 3712 145) (of_nat 1600) = Inr (targetW, targetH)
      \<and> max targetW targetH \<le> int 1600"
    by auto
  with a b c show ?thesis by simp
qed

section \<open>PersistenceGateway\<close>

lemmas json_eval =
  JSON_parse_def load_userData_def parse_step_def close_container_def start_key_def start_value_def
  got_value_def scalar_def valid_number_def valid_fraction_def valid_exponent_def punctuation_def
  is_word_char_def is_number_char_def is_hex_def is_digit_def is_ws_def

text \<open>
  C1. The initializer returns the empty snapshot when nothing is stored and when the stored
  text is empty. For every other stored text it returns what \<^verbatim>\<open>JSON.parse\<close> returns, and it
  fails the caller exactly when \<^verbatim>\<open>JSON.parse\<close> throws: a stored text that is not JSON is not
  replaced by the empty snapshot.
\<close>

theorem load_userData_cases:
  "load_userData None = Inr (JObject [])
   \<and> load_userData (Some []) = Inr (JObject [])
   \<and> (\<forall>s. s \<noteq> [] \<longrightarrow> load_userData (Some s) = JSON_parse s)
   \<and> (\<forall>e. load_userData saved = Inl e \<longleftrightarrow> (\<exists>s. saved = Some s \<and> s \<noteq> [] \<and> JSON_parse s = Inl e))"
  by (cases saved) (auto simp: load_userData_def)

text \<open>A stored snapshot is read back.\<close>

theorem load_userData_cases_witness:
  \<open>load_userData (Some ''{"US":{"visited":true,"date":"2024-05-01","photos":[]}}'')
     = Inr (JObject [(''US'', JObject [(''visited'', JBool True), (''date'', JString ''2024-05-01''),
                                     (''photos'', JArray [])])])
   \<and> load_userData None = Inr (JObject [])\<close>
proof -
  have \<open>''{"US":{"visited":true,"date":"2024-05-01","photos":[]}}'' \<noteq> []\<close> by simp
  with load_userData_cases [of None]
  have \<open>load_userData (Some ''{"US":{"visited":true,"date":"2024-05-01","photos":[]}}'')
      = JSON_parse ''{"US":{"visited":true,"date":"2024-05-01","photos":[]}}''\<close>
    and \<open>load_userData None = Inr (JObject [])\<close>
    by blast+
  then show ?thesis by (simp add: json_eval)
qed

text \<open>A stored text that was cut off makes the initializer throw, and a stored text that
  is JSON but no snapshot is returned as it is.\<close>

theorem load_userData_corrupt_counterexample:
  \<open>load_userData (Some ''{"US":{"visited":tr'') = Inl SyntaxError
   \<and> load_userData (Some ''42'') = Inr (JNumber ''42'')\<close>
  by (simp add: json_eval)

section \<open>RetryableFetch\<close>

lemma fetchJson_attempt_eq:
  "fetchJson_attempt env url w = (attempt_json env url (length (trace w)), emit (Fetch url) w)"
  by (simp add: fetchJson_attempt_def attempt_json_def fetchWithTimeout_def split: fetch_result.splits)

lemma download_eq:
  "download env url w = (attempt_bytes env url (length (trace w)), emit (Fetch url) w)"
  by (simp add: download_def attempt_bytes_def fetchWithTimeout_def split: fetch_result.splits)

lemma plus_four: "n + 4 = Suc (Suc (Suc (Suc n)))"
  by simp

lemma fetchJsonWithRetries_loop_step:
  "attempt \<le> RETRIES \<Longrightarrow>
   fetchJsonWithRetries_loop env url attempt lastError w =
     (case attempt_json env url (length (trace w)) of
        Inr v \<Rightarrow> (Inr v, emit (Fetch url) w)
      | Inl e \<Rightarrow> fetchJsonWithRetries_loop env url (Suc attempt) e
                   (sleep (500 * attempt) (emit (Fetch url) w)))"
  by (subst fetchJsonWithRetries_loop.simps) (simp add: fetchJson_attempt_eq split: sum.splits)

lemma fetchJsonWithRetries_loop_stop:
  "RETRIES < attempt \<Longrightarrow> fetchJsonWithRetries_loop env url attempt lastError w = (Inl lastError, w)"
  by (subst fetchJsonWithRetries_loop.simps) simp

lemma downloadWithRetries_loop_step:
  "attempt \<le> RETRIES \<Longrightarrow>
   downloadWithRetries_loop env url attempt lastError w =
     (case attempt_bytes env url (length (trace w)) of
        Inr v \<Rightarrow> (Inr v, emit (Fetch url) w)
      | Inl e \<Rightarrow> downloadWithRetries_loop env url (Suc attempt) e
                   (sleep (400 * attempt) (emit (Fetch url) w)))"
  by (subst downloadWithRetries_loop.simps) (simp add: download_eq split: sum.splits)

lemma downloadWithRetries_loop_stop:
  "RETRIES < attempt \<Longrightarrow> downloadWithRetries_loop env url attempt lastError w = (Inl lastError, w)"
  by (subst downloadWithRetries_loop.simps) simp

lemma fetchJsonWithRetries_unfold:
  "fetchJsonWithRetries env url w =
     (let t = length (trace w) in
      case attempt_json env url t of
        Inr v \<Rightarrow> (Inr v, w\<lparr>trace := trace w @ [Fetch url]\<rparr>)
      | Inl e1 \<Rightarrow>
      (case attempt_json env url (t + 2) of
        Inr v \<Rightarrow> (Inr v, w\<lparr>trace := trace w @ [Fetch url, Sleep (500 * 1), Fetch url]\<rparr>)
      | Inl e2 \<Rightarrow>
      (case attempt_json env url (t + 4) of
        Inr v \<Rightarrow>
          (Inr v, w\<lparr>trace := trace w @ [Fetch url, Sleep (500 * 1), Fetch url, Sleep (500 * 2), Fetch url]\<rparr>)
      | Inl e3 \<Rightarrow>
          (Inl e3, w\<lparr>trace := trace w @ [Fetch url, Sleep (500 * 1), Fetch url, Sleep (500 * 2), Fetch url,
                                           Sleep (500 * 3)]\<rparr>))))"
  by (simp add: fetchJsonWithRetries_def RETRIES_def sleep_def emit_def Let_def plus_four
        fetchJsonWithRetries_loop_step [of "Suc 0"] fetchJsonWithRetries_loop_step [of "Suc (Suc 0)"]
        fetchJsonWithRetries_loop_step [of "Suc (Suc (Suc 0))"]
        fetchJsonWithRetries_loop_stop [of "Suc (Suc (Suc (Suc 0)))"]
        split: sum.splits)

lemma downloadWithRetries_unfold:
  "downloadWithRetries env url w =
     (let t = length (trace w) in
      case attempt_bytes env url t of
        Inr v \<Rightarrow> (Inr v, w\<lparr>trace := trace w @ [Fetch url]\<rparr>)
      | Inl e1 \<Rightarrow>
      (case attempt_bytes env url (t + 2) of
        Inr v \<Rightarrow> (Inr v, w\<lparr>trace := trace w @ [Fetch url, Sleep (400 * 1), Fetch url]\<rparr>)
      | Inl e2 \<Rightarrow>
      (case attempt_bytes env url (t + 4) of
        Inr v \<Rightarrow>
          (Inr v, w\<lparr>trace := trace w @ [Fetch url, Sleep (400 * 1), Fetch url, Sleep (400 * 2), Fetch url]\<rparr>)
      | Inl e3 \<Rightarrow>
          (Inl e3, w\<lparr>trace := trace w @ [Fetch url, Sleep (400 * 1), Fetch url, Sleep (400 * 2), Fetch url,
                                           Sleep (400 * 3)]\<rparr>))))"
  by (simp add: downloadWithRetries_def RETRIES_def sleep_def emit_def Let_def plus_four
        downloadWithRetries_loop_step [of "Suc 0"] downloadWithRetries_loop_step [of "Suc (Suc 0)"]
        downloadWithRetries_loop_step [of "Suc (Suc (Suc 0))"]
        downloadWithRetries_loop_stop [of "Suc (Suc (Suc (Suc 0)))"]
        split: sum.splits)


lemmas string_eval = toLowerCase_def toUpperCase_def lower_char_def upper_char_def digit_char_def
  hex_char_def encodeURIComponent_def uri_unreserved_def path_join_def outPath_def chunk_url_def
  RESTCOUNTRIES_ALPHA_URL_def

lemma show_nat_digit: "n < 10 \<Longrightarrow> show_nat n = [digit_char n]"
  by (subst show_nat.simps) simp

lemmas run_eval = main_def getFlagUrlByCode_def chunk_def CODES_PER_CHUNK_def slice_def
  chunk_loop.simps [of _ _ 0] chunk_loop.simps [of _ _ 25]
  fetchJsonWithRetries_unfold downloadWithRetries_unfold attempt_json_def attempt_bytes_def
  ok_def http_error_def message_or_self_def emit_def report_def writeFile_def falsy_url_def
  show_nat_digit Let_def

text \<open>
  C8. Both retrying primitives make at most 3 attempts: the request is sent, and sent again
  only after a failed attempt. After the failed attempt number \<open>k\<close> they wait \<open>k\<close> times the
  base delay, 500 ms for the metadata lookup and 400 ms for the download. The first attempt
  that succeeds gives the result; when all 3 attempts fail, the error of the third is
  thrown (after the third wait).
\<close>

theorem retry_policy:
  "fetchJsonWithRetries env url w =
     (let t = length (trace w) in
      case attempt_json env url t of
        Inr v \<Rightarrow> (Inr v, w\<lparr>trace := trace w @ [Fetch url]\<rparr>)
      | Inl e1 \<Rightarrow>
      (case attempt_json env url (t + 2) of
        Inr v \<Rightarrow> (Inr v, w\<lparr>trace := trace w @ [Fetch url, Sleep (500 * 1), Fetch url]\<rparr>)
      | Inl e2 \<Rightarrow>
      (case attempt_json env url (t + 4) of
        Inr v \<Rightarrow>
          (Inr v, w\<lparr>trace := trace w @ [Fetch url, Sleep (500 * 1), Fetch url, Sleep (500 * 2), Fetch url]\<rparr>)
      | Inl e3 \<Rightarrow>
          (Inl e3, w\<lparr>trace := trace w @ [Fetch url, Sleep (500 * 1), Fetch url, Sleep (500 * 2), Fetch url,
                                           Sleep (500 * 3)]\<rparr>))))
   \<and>
   downloadWithRetries env url w =
     (let t = length (trace w) in
      case attempt_bytes env url t of
        Inr v \<Rightarrow> (Inr v, w\<lparr>trace := trace w @ [Fetch url]\<rparr>)
      | Inl e1 \<Rightarrow>
      (case attempt_bytes env url (t + 2) of
        Inr v \<Rightarrow> (Inr v, w\<lparr>trace := trace w @ [Fetch url, Sleep (400 * 1), Fetch url]\<rparr>)
      | Inl e2 \<Rightarrow>
      (case attempt_bytes env url (t + 4) of
        Inr v \<Rightarrow>
          (Inr v, w\<lparr>trace := trace w @ [Fetch url, Sleep (400 * 1), Fetch url, Sleep (400 * 2), Fetch url]\<rparr>)
      | Inl e3 \<Rightarrow>
          (Inl e3, w\<lparr>trace := trace w @ [Fetch url, Sleep (400 * 1), Fetch url, Sleep (400 * 2), Fetch url,
                                           Sleep (400 * 3)]\<rparr>))))"
  by (simp only: fetchJsonWithRetries_unfold downloadWithRetries_unfold simp_thms)

text \<open>On the flaky network the lookup succeeds at its third attempt; on the unreachable
  one the download gives up with the error of its third attempt.\<close>

theorem retry_policy_witness:
  "fetchJsonWithRetries flaky ''u'' w0
     = (Inr (Items [\<lparr>cca2 = Some ''fr'', flags_svg = Some ''https://flagcdn.com/fr.svg''\<rparr>]),
        w0\<lparr>trace := [Fetch ''u'', Sleep 500, Fetch ''u'', Sleep 1000, Fetch ''u'']\<rparr>)
   \<and> downloadWithRetries unreachable ''u'' w0
     = (Inl (Error ''fetch failed''),
        w0\<lparr>trace := [Fetch ''u'', Sleep 400, Fetch ''u'', Sleep 800, Fetch ''u'', Sleep 1200]\<rparr>)"
  using retry_policy [of flaky "''u''" w0] retry_policy [of unreachable "''u''" w0]
  by (simp add: attempt_json_def attempt_bytes_def flaky_def unreachable_def w0_def ok_def Let_def)

section \<open>FlagFetcher\<close>

lemma chunk_loop_total:
  "0 < n \<Longrightarrow> \<exists>cs. chunk_loop arr n i out = Some (out @ cs) \<and> (cs = [] \<longleftrightarrow> length arr \<le> i)"
proof (induction arr n i out rule: chunk_loop.induct)
  case (1 arr chunk_size i out)
  show ?case
  proof (cases "i < length arr")
    case True
    with 1 obtain cs where "chunk_loop arr chunk_size (i + chunk_size) (out @ [slice arr i (i + chunk_size)])
        = Some ((out @ [slice arr i (i + chunk_size)]) @ cs)"
      by auto
    with True 1(2) show ?thesis
      by (subst chunk_loop.simps) simp
  next
    case False
    then show ?thesis by (subst chunk_loop.simps) simp
  qed
qed

lemma chunk_total:
  "0 < n \<Longrightarrow> \<exists>cs. chunk arr n = Some cs \<and> (cs = [] \<longleftrightarrow> arr = [])"
  using chunk_loop_total [of n arr 0 "[]"] by (auto simp: chunk_def)

lemma is_lookup_url_chunk_url: "is_lookup_url (chunk_url part)"
  by (simp add: is_lookup_url_def chunk_url_def Let_def)

lemma attempt_json_arrays_only:
  "arrays_only env \<Longrightarrow> attempt_json env url t \<noteq> Inr NotIterable"
  by (auto simp: arrays_only_def attempt_json_def split: fetch_result.splits)

lemma trace_extension:
  "(\<forall>e\<in>set evs. resolve_event e) \<Longrightarrow> x \<in> set evs \<Longrightarrow>
   \<exists>evs'. w\<lparr>trace := trace w @ evs\<rparr> = w\<lparr>trace := trace w @ evs'\<rparr>
      \<and> (\<forall>e\<in>set evs'. resolve_event e) \<and> x \<in> set evs'"
  by blast

lemma fetchJsonWithRetries_trace:
  "\<exists>evs. snd (fetchJsonWithRetries env (chunk_url part) w) = w\<lparr>trace := trace w @ evs\<rparr>
      \<and> (\<forall>e\<in>set evs. resolve_event e) \<and> Fetch (chunk_url part) \<in> set evs"
  by (auto simp: fetchJsonWithRetries_unfold Let_def is_lookup_url_chunk_url
        split: sum.splits intro!: trace_extension)

lemma fetchJsonWithRetries_arrays_only:
  "arrays_only env \<Longrightarrow> fst (fetchJsonWithRetries env url w) \<noteq> Inr NotIterable"
  using attempt_json_arrays_only [of env url]
  by (auto simp: fetchJsonWithRetries_unfold Let_def split: sum.splits)

lemma getFlagUrlByCode_loop_trace:
  "arrays_only env \<Longrightarrow>
   \<exists>m' evs. getFlagUrlByCode_loop env chunks m w = (Inr m', w\<lparr>trace := trace w @ evs\<rparr>)
      \<and> (\<forall>e\<in>set evs. resolve_event e) \<and> (chunks \<noteq> [] \<longrightarrow> (\<exists>u. Fetch u \<in> set evs))"
proof (induction chunks arbitrary: m w)
  case Nil
  have "getFlagUrlByCode_loop env [] m w = (Inr m, w\<lparr>trace := trace w @ []\<rparr>)" by simp
  then show ?case by fastforce
next
  case (Cons part rest)
  obtain r w1 where run: "fetchJsonWithRetries env (chunk_url part) w = (r, w1)"
    by (cases "fetchJsonWithRetries env (chunk_url part) w")
  from fetchJsonWithRetries_trace [of env part w] run
  obtain evs1 where w1: "w1 = w\<lparr>trace := trace w @ evs1\<rparr>"
    and evs1: "\<forall>e\<in>set evs1. resolve_event e" and f1: "Fetch (chunk_url part) \<in> set evs1"
    by auto
  from fetchJsonWithRetries_arrays_only [OF Cons.prems, of "chunk_url part" w] run
  have notit: "r \<noteq> Inr NotIterable" by simp
  show ?case
  proof (cases r)
    case (Inl e)
    define line where "line = ConsoleError
        [Text (''Failed to load chunk from restcountries ('' @ join '', '' part @ ''):''), message_or_self e]"
    from Cons.IH [OF Cons.prems, of m "emit line w1"]
    obtain m' evs2 where rec: "getFlagUrlByCode_loop env rest m (emit line w1)
          = (Inr m', (emit line w1)\<lparr>trace := trace (emit line w1) @ evs2\<rparr>)"
      and evs2: "\<forall>e\<in>set evs2. resolve_event e"
      by blast
    have "getFlagUrlByCode_loop env (part # rest) m w
          = (Inr m', w\<lparr>trace := trace w @ (evs1 @ [line] @ evs2)\<rparr>)"
      using run Inl rec by (simp add: line_def w1 emit_def)
    moreover have "\<forall>e\<in>set (evs1 @ [line] @ evs2). resolve_event e"
      using evs1 evs2 by (auto simp: line_def)
    moreover have "Fetch (chunk_url part) \<in> set (evs1 @ [line] @ evs2)" using f1 by simp
    ultimately show ?thesis by blast
  next
    case (Inr p)
    with notit obtain data where p: "p = Items data" by (cases p) auto
    from Cons.IH [OF Cons.prems, of "collect_items data m" w1]
    obtain m' evs2 where rec: "getFlagUrlByCode_loop env rest (collect_items data m) w1
          = (Inr m', w1\<lparr>trace := trace w1 @ evs2\<rparr>)"
      and evs2: "\<forall>e\<in>set evs2. resolve_event e"
      by blast
    have "getFlagUrlByCode_loop env (part # rest) m w
          = (Inr m', w\<lparr>trace := trace w @ (evs1 @ evs2)\<rparr>)"
      using run Inr p rec by (simp add: w1)
    moreover have "\<forall>e\<in>set (evs1 @ evs2). resolve_event e"
      using evs1 evs2 by auto
    moreover have "Fetch (chunk_url part) \<in> set (evs1 @ evs2)" using f1 by simp
    ultimately show ?thesis by blast
  qed
qed

lemma download_each_all_present:
  "\<forall>c\<in>set codes. files w (outPath env c) \<noteq> None \<Longrightarrow>
   download_each env m codes (n_ok, failed) w = ((n_ok + length codes, failed), w)"
  by (induction codes arbitrary: n_ok) auto

text \<open>
  C3. When the file of every code exists already, the run downloads nothing and writes
  nothing: after creating the directory it makes the metadata lookups of the resolve phase
  and prints the summary, with every code counted as succeeded and none as failed, and it
  leaves the exit code as it was (0), provided every JSON body the endpoint sends is an
  array, as the source types it. The lookups are made all the same: for a non-empty code
  set at least one request goes to the metadata endpoint.
\<close>

theorem rerun_on_populated_directory:
  assumes present: "\<forall>c\<in>set codes. files w (outPath env c) \<noteq> None"
    and arrays: "arrays_only env"
  shows "\<exists>w' evs.
           main env codes w = Some w'
         \<and> exitCode w' = exitCode w
         \<and> files w' = files w
         \<and> trace w' = trace w @ [Mkdir (OUTPUT_DIR env)] @ evs
              @ [ConsoleLog [Text (''Done. Saved/exists: '' @ show_nat (length codes)
                                   @ ''. Failed: 0. Output: '' @ OUTPUT_DIR env)]]
         \<and> (\<forall>e\<in>set evs. resolve_event e)
         \<and> (codes \<noteq> [] \<longrightarrow> (\<exists>u. Fetch u \<in> set evs))"
proof -
  define w1 where "w1 = emit (Mkdir (OUTPUT_DIR env)) w"
  obtain chunks where chunks: "chunk codes CODES_PER_CHUNK = Some chunks"
    and nonempty: "chunks = [] \<longleftrightarrow> codes = []"
    using chunk_total [of CODES_PER_CHUNK codes] by (auto simp: CODES_PER_CHUNK_def)
  from getFlagUrlByCode_loop_trace [OF arrays, of chunks Map.empty w1]
  obtain m evs where loop: "getFlagUrlByCode_loop env chunks Map.empty w1 = (Inr m, w1\<lparr>trace := trace w1 @ evs\<rparr>)"
    and evs: "\<forall>e\<in>set evs. resolve_event e"
    and fetched: "chunks \<noteq> [] \<longrightarrow> (\<exists>u. Fetch u \<in> set evs)"
    by blast
  define w2 where "w2 = w1\<lparr>trace := trace w1 @ evs\<rparr>"
  have files2: "files w2 = files w" by (simp add: w2_def w1_def emit_def)
  with present have "\<forall>c\<in>set codes. files w2 (outPath env c) \<noteq> None" by simp
  then have dl: "download_each env m codes (0, 0) w2 = ((length codes, 0), w2)"
    using download_each_all_present [of codes w2 env m 0 0] by simp
  have run: "main env codes w = Some (report env (length codes, 0) w2)"
    using chunks loop dl by (simp add: main_def getFlagUrlByCode_def w1_def w2_def)
  have "exitCode (report env (length codes, 0) w2) = exitCode w"
    by (simp add: report_def Let_def emit_def w2_def w1_def)
  moreover have "files (report env (length codes, 0) w2) = files w"
    using files2 by (simp add: report_def Let_def emit_def)
  moreover have "trace (report env (length codes, 0) w2) = trace w @ [Mkdir (OUTPUT_DIR env)] @ evs
       @ [ConsoleLog [Text (''Done. Saved/exists: '' @ show_nat (length codes)
                            @ ''. Failed: 0. Output: '' @ OUTPUT_DIR env)]]"
    by (simp add: report_def Let_def emit_def w2_def w1_def show_nat.simps [of 0] digit_char_def)
  moreover have "codes \<noteq> [] \<longrightarrow> (\<exists>u. Fetch u \<in> set evs)" using fetched nonempty by simp
  ultimately show ?thesis using run evs by blast
qed


theorem rerun_on_populated_directory_witness:
  "files w_populated (outPath populated ''US'') \<noteq> None
   \<and> (\<exists>w'. main populated [''US''] w_populated = Some w'
         \<and> exitCode w' = 0
         \<and> files w' = files w_populated
         \<and> last (trace w')
              = ConsoleLog [Text ''Done. Saved/exists: 1. Failed: 0. Output: /app/public/flags''])"
proof -
  have present: "\<forall>c\<in>set [''US'']. files w_populated (outPath populated c) \<noteq> None"
    by (simp add: string_eval populated_def w_populated_def)
  have arrays: "arrays_only populated"
    by (simp add: arrays_only_def populated_def)
  from rerun_on_populated_directory [OF present arrays]
  obtain w' evs where run: "main populated [''US''] w_populated = Some w'"
    and code: "exitCode w' = exitCode w_populated" and kept: "files w' = files w_populated"
    and tr: "trace w' = trace w_populated @ [Mkdir (OUTPUT_DIR populated)] @ evs
         @ [ConsoleLog [Text (''Done. Saved/exists: '' @ show_nat (length [''US''])
                              @ ''. Failed: 0. Output: '' @ OUTPUT_DIR populated)]]"
    by blast
  have "exitCode w' = 0" using code by (simp add: w_populated_def)
  moreover have "last (trace w')
      = ConsoleLog [Text ''Done. Saved/exists: 1. Failed: 0. Output: /app/public/flags'']"
    unfolding tr by (simp add: populated_def show_nat_digit digit_char_def)
  ultimately show ?thesis using present run kept by simp
qed


text \<open>The run on a populated directory does send a request: the metadata lookup.\<close>

theorem rerun_still_fetches_metadata_counterexample:
  "files w_populated (outPath populated ''US'') \<noteq> None
   \<and> main populated [''US''] w_populated =
     Some \<lparr>trace =
             [Mkdir ''/app/public/flags'',
              Fetch ''https://restcountries.com/v3.1/alpha?codes=US&fields=cca2,flags'',
              ConsoleLog [Text ''Done. Saved/exists: 1. Failed: 0. Output: /app/public/flags'']],
           files = [''/app/public/flags/us.svg'' \<mapsto> [60, 115, 118, 103, 62]], exitCode = 0\<rparr>"
  by (simp add: run_eval string_eval populated_def w_populated_def)

text \<open>What happens when no metadata lookup succeeds.\<close>

lemma fetchJsonWithRetries_every_lookup_fails:
  assumes "every_lookup_fails env"
  shows "\<exists>e. fetchJsonWithRetries env url w =
           (Inl e, w\<lparr>trace := trace w @ [Fetch url, Sleep 500, Fetch url, Sleep 1000, Fetch url, Sleep 1500]\<rparr>)"
proof -
  from assms obtain e1 e2 e3 where
    "attempt_json env url (length (trace w)) = Inl e1"
    "attempt_json env url (length (trace w) + 2) = Inl e2"
    "attempt_json env url (length (trace w) + 4) = Inl e3"
    unfolding every_lookup_fails_def by metis
  then show ?thesis by (simp add: fetchJsonWithRetries_unfold Let_def)
qed

lemma getFlagUrlByCode_loop_every_lookup_fails:
  "every_lookup_fails env \<Longrightarrow>
   \<exists>evs. getFlagUrlByCode_loop env chunks m w = (Inr m, w\<lparr>trace := trace w @ evs\<rparr>)
      \<and> abort_line \<notin> set evs"
proof (induction chunks arbitrary: w)
  case Nil
  have "getFlagUrlByCode_loop env [] m w = (Inr m, w\<lparr>trace := trace w @ []\<rparr>)" by simp
  then show ?case by fastforce
next
  case (Cons part rest)
  from fetchJsonWithRetries_every_lookup_fails [OF Cons.prems, of "chunk_url part" w]
  obtain e where run: "fetchJsonWithRetries env (chunk_url part) w =
      (Inl e, w\<lparr>trace := trace w @ [Fetch (chunk_url part), Sleep 500, Fetch (chunk_url part), Sleep 1000,
                                     Fetch (chunk_url part), Sleep 1500]\<rparr>)"
    by blast
  define evs1 where "evs1 = [Fetch (chunk_url part), Sleep 500, Fetch (chunk_url part), Sleep 1000,
      Fetch (chunk_url part), Sleep 1500,
      ConsoleError [Text (''Failed to load chunk from restcountries ('' @ join '', '' part @ ''):''),
                    message_or_self e]]"
  from Cons.IH [OF Cons.prems, of "w\<lparr>trace := trace w @ evs1\<rparr>"]
  obtain evs2 where rec: "getFlagUrlByCode_loop env rest m (w\<lparr>trace := trace w @ evs1\<rparr>)
        = (Inr m, w\<lparr>trace := trace w @ evs1 @ evs2\<rparr>)"
    and clean: "abort_line \<notin> set evs2"
    by auto
  have "getFlagUrlByCode_loop env (part # rest) m w = (Inr m, w\<lparr>trace := trace w @ (evs1 @ evs2)\<rparr>)"
    using run rec by (simp add: emit_def evs1_def)
  moreover have "abort_line \<notin> set (evs1 @ evs2)"
    using clean by (simp add: evs1_def abort_line_def)
  ultimately show ?case by blast
qed

lemma download_each_no_urls:
  "\<forall>c\<in>set codes. files w (outPath env c) = None \<Longrightarrow>
   download_each env Map.empty codes (n_ok, failed) w
     = ((n_ok, failed + length codes), w\<lparr>trace := trace w @ map no_url_line codes\<rparr>)"
proof (induction codes arbitrary: failed w)
  case Nil
  then show ?case by simp
next
  case (Cons code rest)
  define w1 where "w1 = emit (no_url_line code) w"
  have "\<forall>c\<in>set rest. files w1 (outPath env c) = None"
    using Cons.prems by (simp add: w1_def emit_def)
  from Cons.IH [OF this, of "failed + 1"]
  have "download_each env Map.empty rest (n_ok, failed + 1) w1
      = ((n_ok, failed + 1 + length rest), w1\<lparr>trace := trace w1 @ map no_url_line rest\<rparr>)" .
  then show ?case
    using Cons.prems by (simp add: w1_def emit_def falsy_url_def no_url_line_def)
qed

lemma no_url_line_not_abort_line: "no_url_line code \<noteq> abort_line"
proof
  assume "no_url_line code = abort_line"
  then have "''Failed '' @ code @ '': no flag URL from restcountries''
      = ''Failed to load flag URLs from restcountries.com.''"
    by (simp only: no_url_line_def abort_line_def event.inject list.inject console_arg.inject)
  then have "last (''Failed '' @ code @ '': no flag URL from restcountries'')
      = last ''Failed to load flag URLs from restcountries.com.''"
    by (rule arg_cong)
  then show False by simp
qed

text \<open>
  C2. The specification says that a run in which no metadata lookup resolves anything
  aborts early, with exit code 1 and a diagnostic of its own, which the \<^verbatim>\<open>catch\<close> in \<^verbatim>\<open>main\<close>
  is written to print. The code does not do that:
  \<^verbatim>\<open>getFlagUrlByCode\<close> swallows the failure of each chunk, so \<^verbatim>\<open>main\<close> goes on to the download
  phase with an empty map. When every lookup fails and no file of the code set exists, the
  run prints one line per code (no URL), then the summary with all codes failed; the line
  that opens the abort diagnostic is never printed, and the exit code is 1 only through
  the count of failed codes.
\<close>

theorem total_lookup_failure_is_not_fatal:
  assumes unreachable: "every_lookup_fails env"
    and missing: "\<forall>c\<in>set codes. files w (outPath env c) = None"
  shows "\<exists>w' evs.
           main env codes w = Some w'
         \<and> trace w' = trace w @ [Mkdir (OUTPUT_DIR env)] @ evs @ map no_url_line codes
              @ [ConsoleLog [Text (''Done. Saved/exists: 0. Failed: '' @ show_nat (length codes)
                                   @ ''. Output: '' @ OUTPUT_DIR env)]]
         \<and> abort_line \<notin> set evs
         \<and> abort_line \<notin> set (map no_url_line codes)
         \<and> exitCode w' = (if codes = [] then exitCode w else 1)
         \<and> files w' = files w"
proof -
  define w1 where "w1 = emit (Mkdir (OUTPUT_DIR env)) w"
  obtain chunks where chunks: "chunk codes CODES_PER_CHUNK = Some chunks"
    using chunk_total [of CODES_PER_CHUNK codes] by (auto simp: CODES_PER_CHUNK_def)
  from getFlagUrlByCode_loop_every_lookup_fails [OF unreachable, of chunks Map.empty w1]
  obtain evs where loop: "getFlagUrlByCode_loop env chunks Map.empty w1
        = (Inr Map.empty, w1\<lparr>trace := trace w1 @ evs\<rparr>)"
    and clean: "abort_line \<notin> set evs"
    by blast
  define w2 where "w2 = w1\<lparr>trace := trace w1 @ evs\<rparr>"
  have "\<forall>c\<in>set codes. files w2 (outPath env c) = None"
    using missing by (simp add: w2_def w1_def emit_def)
  from download_each_no_urls [OF this, of 0 0]
  have dl: "download_each env Map.empty codes (0, 0) w2
      = ((0, length codes), w2\<lparr>trace := trace w2 @ map no_url_line codes\<rparr>)" by simp
  define w3 where "w3 = w2\<lparr>trace := trace w2 @ map no_url_line codes\<rparr>"
  have run: "main env codes w = Some (report env (0, length codes) w3)"
    using chunks loop dl by (simp add: main_def getFlagUrlByCode_def w1_def w2_def w3_def)
  have "trace (report env (0, length codes) w3)
      = trace w @ [Mkdir (OUTPUT_DIR env)] @ evs @ map no_url_line codes
        @ [ConsoleLog [Text (''Done. Saved/exists: 0. Failed: '' @ show_nat (length codes)
                             @ ''. Output: '' @ OUTPUT_DIR env)]]"
    by (simp add: report_def Let_def emit_def w3_def w2_def w1_def show_nat_digit digit_char_def)
  moreover have "exitCode (report env (0, length codes) w3) = (if codes = [] then exitCode w else 1)"
    by (simp add: report_def Let_def emit_def w3_def w2_def w1_def)
  moreover have "files (report env (0, length codes) w3) = files w"
    by (simp add: report_def Let_def emit_def w3_def w2_def w1_def)
  moreover have "abort_line \<notin> set (map no_url_line codes)"
    using no_url_line_not_abort_line by (metis (no_types) imageE set_map)
  ultimately show ?thesis using run clean by blast
qed

text \<open>The run for the code set \<open>US\<close> against an endpoint that cannot be reached.\<close>

theorem total_lookup_failure_is_not_fatal_witness:
  "files w0 (outPath unreachable ''US'') = None
   \<and> main unreachable [''US''] w0 =
     Some \<lparr>trace =
             [Mkdir ''/app/public/flags'',
              Fetch ''https://restcountries.com/v3.1/alpha?codes=US&fields=cca2,flags'',
              Sleep 500,
              Fetch ''https://restcountries.com/v3.1/alpha?codes=US&fields=cca2,flags'',
              Sleep 1000,
              Fetch ''https://restcountries.com/v3.1/alpha?codes=US&fields=cca2,flags'',
              Sleep 1500,
              ConsoleError [Text ''Failed to load chunk from restcountries (US):'', Text ''fetch failed''],
              ConsoleError [Text ''Failed US: no flag URL from restcountries''],
              ConsoleLog [Text ''Done. Saved/exists: 0. Failed: 1. Output: /app/public/flags'']],
           files = Map.empty, exitCode = 1\<rparr>"
proof -
  have fails: "every_lookup_fails unreachable"
    by (simp add: every_lookup_fails_def attempt_json_def unreachable_def)
  have missing: "\<forall>c\<in>set [''US'']. files w0 (outPath unreachable c) = None"
    by (simp add: w0_def)
  from total_lookup_failure_is_not_fatal [OF fails missing]
  obtain w' where "main unreachable [''US''] w0 = Some w'" and "exitCode w' = 1"
    by auto
  then show ?thesis
    by (simp add: run_eval string_eval unreachable_def w0_def)
qed

end
